theory Spec2Isabelle
  imports Complex_Main "HOL-Library.Sublist" "HOL-Library.Word"
begin

section \<open>Go strings\<close>

text \<open>
  A Go string is a sequence of bytes; \<^typ>\<open>string\<close> is a list of 8-bit characters, so the
  two coincide. The functions of package \<open>strings\<close> that the program calls are written
  out here on bytes. \<open>strings.Index\<close> and \<open>strings.LastIndex\<close> return \<open>-1\<close> when the
  substring does not occur, as in Go.
\<close>

definition HasPrefix :: "string \<Rightarrow> string \<Rightarrow> bool" where
  "HasPrefix s p = prefix p s"

definition HasSuffix :: "string \<Rightarrow> string \<Rightarrow> bool" where
  "HasSuffix s p = suffix p s"

definition TrimPrefix :: "string \<Rightarrow> string \<Rightarrow> string" where
  "TrimPrefix s p = (if HasPrefix s p then drop (length p) s else s)"

definition TrimSuffix :: "string \<Rightarrow> string \<Rightarrow> string" where
  "TrimSuffix s p = (if HasSuffix s p then take (length s - length p) s else s)"

fun Index :: "string \<Rightarrow> string \<Rightarrow> int" where
  "Index [] sub = (if sub = [] then 0 else -1)"
| "Index (c # t) sub =
     (if prefix sub (c # t) then 0
      else (let i = Index t sub in if i < 0 then -1 else i + 1))"

definition LastIndex :: "string \<Rightarrow> string \<Rightarrow> int" where
  "LastIndex s sub =
     (let i = Index (rev s) (rev sub)
      in if i < 0 then -1 else int (length s) - int (length sub) - i)"

definition Contains :: "string \<Rightarrow> string \<Rightarrow> bool" where
  "Contains s sub = (0 \<le> Index s sub)"

text \<open>The slice expression \<open>s[lo:hi]\<close> for \<open>0 \<le> lo \<le> hi \<le> len(s)\<close>.\<close>

definition slice :: "string \<Rightarrow> int \<Rightarrow> int \<Rightarrow> string" where
  "slice s lo hi = take (nat (hi - lo)) (drop (nat lo) s)"

text \<open>
  \<open>strings.TrimSpace\<close> removes leading and trailing white space as defined by Unicode:
  the runes for which \<open>unicode.IsSpace\<close> holds, that is U+0009 to U+000D, U+0020, U+0085,
  U+00A0, U+1680, U+2000 to U+200A, U+2028, U+2029, U+202F, U+205F and U+3000. On the bytes
  of the string, the first (last) rune is one of them exactly when the string starts (ends)
  with its UTF-8 encoding; \<open>space_runes\<close> lists these encodings.
\<close>

definition space_runes :: "string list" where
  "space_runes =
    [[CHR 0x09], [CHR 0x0A], [CHR 0x0B], [CHR 0x0C], [CHR 0x0D], [CHR 0x20],
     [CHR 0xC2, CHR 0x85], [CHR 0xC2, CHR 0xA0],
     [CHR 0xE1, CHR 0x9A, CHR 0x80],
     [CHR 0xE2, CHR 0x80, CHR 0x80], [CHR 0xE2, CHR 0x80, CHR 0x81],
     [CHR 0xE2, CHR 0x80, CHR 0x82], [CHR 0xE2, CHR 0x80, CHR 0x83],
     [CHR 0xE2, CHR 0x80, CHR 0x84], [CHR 0xE2, CHR 0x80, CHR 0x85],
     [CHR 0xE2, CHR 0x80, CHR 0x86], [CHR 0xE2, CHR 0x80, CHR 0x87],
     [CHR 0xE2, CHR 0x80, CHR 0x88], [CHR 0xE2, CHR 0x80, CHR 0x89],
     [CHR 0xE2, CHR 0x80, CHR 0x8A],
     [CHR 0xE2, CHR 0x80, CHR 0xA8], [CHR 0xE2, CHR 0x80, CHR 0xA9],
     [CHR 0xE2, CHR 0x80, CHR 0xAF],
     [CHR 0xE2, CHR 0x81, CHR 0x9F],
     [CHR 0xE3, CHR 0x80, CHR 0x80]]"

text \<open>The encoding of the white-space rune the string starts (ends) with, if any.\<close>

definition leading_space :: "string \<Rightarrow> string option" where
  "leading_space s = find (\<lambda>t. prefix t s) space_runes"

definition trailing_space :: "string \<Rightarrow> string option" where
  "trailing_space s = find (\<lambda>t. suffix t s) space_runes"

function TrimLeftSpace :: "string \<Rightarrow> string" where
  "TrimLeftSpace s =
     (case leading_space s of
        None \<Rightarrow> s
      | Some t \<Rightarrow> TrimLeftSpace (drop (length t) s))"
  by pat_completeness auto
termination
proof (relation "measure length")
  show "wf (measure length)" by simp
next
  fix s t :: string
  assume "leading_space s = Some t"
  then have mem: "t \<in> set space_runes" and pre: "prefix t s"
    by (auto simp: leading_space_def find_Some_iff)
  from mem have "t \<noteq> []" by (auto simp: space_runes_def)
  with pre have "length (drop (length t) s) < length s"
    by (auto simp: prefix_def)
  then show "(drop (length t) s, s) \<in> measure length" by simp
qed

function TrimRightSpace :: "string \<Rightarrow> string" where
  "TrimRightSpace s =
     (case trailing_space s of
        None \<Rightarrow> s
      | Some t \<Rightarrow> TrimRightSpace (take (length s - length t) s))"
  by pat_completeness auto
termination
proof (relation "measure length")
  show "wf (measure length)" by simp
next
  fix s t :: string
  assume "trailing_space s = Some t"
  then have mem: "t \<in> set space_runes" and suf: "suffix t s"
    by (auto simp: trailing_space_def find_Some_iff)
  from mem have "t \<noteq> []" by (auto simp: space_runes_def)
  with suf have "length (take (length s - length t) s) < length s"
    by (auto simp: suffix_def)
  then show "(take (length s - length t) s, s) \<in> measure length" by simp
qed

declare TrimLeftSpace.simps [simp del] TrimRightSpace.simps [simp del]

definition TrimSpace :: "string \<Rightarrow> string" where
  "TrimSpace s = TrimRightSpace (TrimLeftSpace s)"

section \<open>Cleaning the model's reply (utils/validator.go)\<close>

text \<open>
  \<open>CleanJSONResponse\<close>, lines 95 to 104: trim, remove one leading fence (\<open>```json\<close> before
  \<open>```\<close>), remove one trailing fence, trim again.
\<close>

definition stripFences :: "string \<Rightarrow> string" where
  "stripFences raw =
     (let s = TrimSpace raw;
          s = (if HasPrefix s ''```json'' then TrimPrefix s ''```json''
               else if HasPrefix s ''```'' then TrimPrefix s ''```''
               else s);
          s = TrimSuffix s ''```''
      in TrimSpace s)"

text \<open>Lines 106 to 113: the substring from the first \<open>{\<close> to the last \<open>}\<close>.\<close>

definition extractObject :: "string \<Rightarrow> string" where
  "extractObject s =
     (let start = Index s ''{'';
          end = LastIndex s ''}''
      in if start \<noteq> -1 \<and> end \<noteq> -1 \<and> end > start then slice s start (end + 1) else s)"

definition CleanJSONResponse :: "string \<Rightarrow> string" where
  "CleanJSONResponse raw = extractObject (stripFences raw)"


text \<open>
  The position of the first (last) occurrence of a byte, for a string that contains it;
  used to state what \<open>extractObject\<close> returns without the \<open>-1\<close> convention.
\<close>

definition firstPos :: "char \<Rightarrow> string \<Rightarrow> nat" where
  "firstPos c s = length (takeWhile (\<lambda>x. x \<noteq> c) s)"

definition lastPos :: "char \<Rightarrow> string \<Rightarrow> nat" where
  "lastPos c s = length s - 1 - length (takeWhile (\<lambda>x. x \<noteq> c) (rev s))"

text \<open>\<open>strings.Join\<close> and the decimal rendering of \<open>fmt.Sprintf("%d", n)\<close> for \<open>n \<ge> 0\<close>.\<close>

fun Join :: "string list \<Rightarrow> string \<Rightarrow> string" where
  "Join [] sep = []"
| "Join [x] sep = x"
| "Join (x # y # ys) sep = x @ sep @ Join (y # ys) sep"

fun decimal :: "nat \<Rightarrow> string" where
  "decimal n =
     (if n < 10 then [char_of (48 + n)]
      else decimal (n div 10) @ [char_of (48 + n mod 10)])"

text \<open>
  \<open>strings.ToLower\<close> on the ASCII letters. Go maps the runes of a non-ASCII string by
  Unicode, which this model leaves as they are; the result is only compared with
  \<open>.pdf\<close>, and no rune outside ASCII has a letter of \<open>.pdf\<close> as its lower case, so the
  comparison is the same.
\<close>

definition ToLower :: "string \<Rightarrow> string" where
  "ToLower s =
     map (\<lambda>c. let n = (of_char c :: nat) in if 65 \<le> n \<and> n \<le> 90 then char_of (n + 32) else c) s"

section \<open>Data model (models/output.go)\<close>

text \<open>
  A Go struct is a record; fields carry a short prefix of their struct, since several
  structs share field names. A pointer that the program tests against \<open>nil\<close> is an
  \<open>option\<close>. A map or slice that the program tests against \<open>nil\<close> (\<open>key_value_pairs\<close>,
  \<open>tables\<close>) is an \<open>option\<close> too, \<open>None\<close> being the nil map or slice; the other slices
  are lists, nil and empty being the same to every function here. \<open>float64\<close> values
  are only copied and compared with 0 and 1, and are modelled as reals (JSON numbers are
  finite). Go's \<open>int\<close> and \<open>int64\<close> are 64-bit words, compared as signed numbers.
\<close>

type_synonym SourceType = string
type_synonym ColorMode = string
type_synonym DocumentType = string

definition SourceTypeFile :: SourceType where "SourceTypeFile = ''file''"
definition SourceTypeURL :: SourceType where "SourceTypeURL = ''url''"

definition ColorModeRGB :: ColorMode where "ColorModeRGB = ''RGB''"
definition ColorModeGrayscale :: ColorMode where "ColorModeGrayscale = ''Grayscale''"
definition ColorModeCMYK :: ColorMode where "ColorModeCMYK = ''CMYK''"
definition ColorModeUnknown :: ColorMode where "ColorModeUnknown = ''Unknown''"

definition DocumentTypeInvoice :: DocumentType where "DocumentTypeInvoice = ''invoice''"
definition DocumentTypeReceipt :: DocumentType where "DocumentTypeReceipt = ''receipt''"
definition DocumentTypeIDCard :: DocumentType where "DocumentTypeIDCard = ''id_card''"
definition DocumentTypeContract :: DocumentType where "DocumentTypeContract = ''contract''"
definition DocumentTypeUnknown :: DocumentType where "DocumentTypeUnknown = ''unknown''"

record Source =
  so_Type :: SourceType
  so_Path :: string
  so_Checksum :: string

record ImageInfo =
  ii_Width :: "64 word"
  ii_Height :: "64 word"
  ii_DPI :: "64 word option"
  ii_ColorMode :: ColorMode

record Metadata =
  md_Language :: "string option"
  md_DocumentType :: DocumentType
  md_ConfidenceScore :: real

record BoundingBox =
  bb_X :: real
  bb_Y :: real
  bb_Width :: real
  bb_Height :: real

record TextLine =
  tl_Text :: string
  tl_BoundingBox :: "BoundingBox option"
  tl_Confidence :: real

record TextResult =
  tr_Raw :: string
  tr_Lines :: "TextLine list"

record Table =
  tb_Headers :: "string list"
  tb_Rows :: "string list list"

record StructuredData =
  sd_KeyValuePairs :: "(string \<rightharpoonup> string) option"
  sd_Tables :: "Table list option"

record OCRResult =
  r_Source :: Source
  r_Image :: ImageInfo
  r_Metadata :: Metadata
  r_Text :: TextResult
  r_StructuredData :: StructuredData
  r_Summary :: "string option"

record OllamaMetadata =
  om_Language :: "string option"
  om_DocumentType :: string
  om_ConfidenceScore :: real

record OllamaTextLine =
  ol_Text :: string
  ol_BoundingBox :: "BoundingBox option"
  ol_Confidence :: real

record OllamaTextResult =
  ot_Raw :: string
  ot_Lines :: "OllamaTextLine list"

record OllamaStructuredData =
  os_KeyValuePairs :: "(string \<rightharpoonup> string) option"
  os_Tables :: "Table list option"

record OllamaImageInfo =
  oi_Width :: "64 word"
  oi_Height :: "64 word"
  oi_DPI :: "64 word option"
  oi_ColorMode :: string

record OllamaVisionResponse =
  vr_Metadata :: "OllamaMetadata option"
  vr_Text :: "OllamaTextResult option"
  vr_StructuredData :: "OllamaStructuredData option"
  vr_Summary :: "string option"
  vr_Image :: "OllamaImageInfo option"

text \<open>
  The elements of a slice that may be nil, and \<open>append(a, b...)\<close>: appending no element
  returns \<open>a\<close> itself (so nil stays nil), appending some allocates.
\<close>

definition elems :: "'a list option \<Rightarrow> 'a list" where
  "elems a = (case a of None \<Rightarrow> [] | Some xs \<Rightarrow> xs)"

definition append_slice :: "'a list option \<Rightarrow> 'a list option \<Rightarrow> 'a list option" where
  "append_slice a b = (if elems b = [] then a else Some (elems a @ elems b))"

text \<open>The entries of a map that may be nil; ranging over a nil map visits nothing.\<close>

definition entries :: "('k \<rightharpoonup> 'v) option \<Rightarrow> ('k \<rightharpoonup> 'v)" where
  "entries m = (case m of None \<Rightarrow> Map.empty | Some f \<Rightarrow> f)"

section \<open>Configuration (options.go)\<close>

record Config =
  cfg_OllamaURL :: string
  cfg_Model :: string
  cfg_Timeout :: "64 word"
  cfg_Temperature :: real
  cfg_MaxFileSize :: "64 word"
  cfg_MaxImageDimension :: "64 word"
  cfg_WithSummary :: bool
  cfg_WithLanguageDetection :: bool
  cfg_WithStructuredExtraction :: bool
  cfg_WithBoundingBoxes :: bool
  cfg_WithConfidenceScores :: bool

definition DefaultConfig :: Config where
  "DefaultConfig =
     \<lparr>cfg_OllamaURL = ''http://localhost:11434'',
      cfg_Model = ''llama3.2-vision'',
      cfg_Timeout = 120 * 1000000000,
      cfg_Temperature = 1 / 10,
      cfg_MaxFileSize = 50 * 1024 * 1024,
      cfg_MaxImageDimension = 8192,
      cfg_WithSummary = False,
      cfg_WithLanguageDetection = True,
      cfg_WithStructuredExtraction = True,
      cfg_WithBoundingBoxes = True,
      cfg_WithConfidenceScores = True\<rparr>"

section \<open>Validation (utils/validator.go)\<close>

text \<open>
  The two tables of allowed values are Go maps to \<open>bool\<close>. \<open>present m k\<close> is the \<open>ok\<close>
  of \<open>_, ok := m[k]\<close>; \<open>lookup m k\<close> is \<open>m[k]\<close>, \<open>false\<close> for a missing key.
\<close>

definition ValidDocumentTypes :: "DocumentType \<rightharpoonup> bool" where
  "ValidDocumentTypes =
     map_of [(DocumentTypeInvoice, True), (DocumentTypeReceipt, True),
             (DocumentTypeIDCard, True), (DocumentTypeContract, True),
             (DocumentTypeUnknown, True)]"

definition ValidColorModes :: "ColorMode \<rightharpoonup> bool" where
  "ValidColorModes =
     map_of [(ColorModeRGB, True), (ColorModeGrayscale, True),
             (ColorModeCMYK, True), (ColorModeUnknown, True)]"

definition present :: "('k \<rightharpoonup> bool) \<Rightarrow> 'k \<Rightarrow> bool" where
  "present m k = (m k \<noteq> None)"

definition lookup :: "('k \<rightharpoonup> bool) \<Rightarrow> 'k \<Rightarrow> bool" where
  "lookup m k = (case m k of None \<Rightarrow> False | Some b \<Rightarrow> b)"

datatype validation_error =
    ResultIsNil
  | InvalidSourceType SourceType
  | SourcePathEmpty
  | SourceChecksumEmpty
  | InvalidDocumentType DocumentType
  | ConfidenceScoreOutOfRange real
  | InvalidColorMode ColorMode
  | LineEmptyText nat
  | LineConfidenceOutOfRange nat real
  | KeyValuePairsNil
  | TablesNil

text \<open>The loop over the text lines, from index \<open>i\<close>: the first error found, if any.\<close>

fun validateLines :: "nat \<Rightarrow> TextLine list \<Rightarrow> validation_error option" where
  "validateLines i [] = None"
| "validateLines i (line # rest) =
     (if tl_Text line = [] then Some (LineEmptyText i)
      else if tl_Confidence line < 0 \<or> tl_Confidence line > 1
        then Some (LineConfidenceOutOfRange i (tl_Confidence line))
      else validateLines (i + 1) rest)"

definition ValidateOCRResult :: "OCRResult option \<Rightarrow> validation_error option" where
  "ValidateOCRResult res =
     (case res of
        None \<Rightarrow> Some ResultIsNil
      | Some result \<Rightarrow>
         if so_Type (r_Source result) \<noteq> SourceTypeFile \<and> so_Type (r_Source result) \<noteq> SourceTypeURL
           then Some (InvalidSourceType (so_Type (r_Source result)))
         else if so_Path (r_Source result) = [] then Some SourcePathEmpty
         else if so_Checksum (r_Source result) = [] then Some SourceChecksumEmpty
         else if \<not> lookup ValidDocumentTypes (md_DocumentType (r_Metadata result))
           then Some (InvalidDocumentType (md_DocumentType (r_Metadata result)))
         else if md_ConfidenceScore (r_Metadata result) < 0 \<or> md_ConfidenceScore (r_Metadata result) > 1
           then Some (ConfidenceScoreOutOfRange (md_ConfidenceScore (r_Metadata result)))
         else if \<not> lookup ValidColorModes (ii_ColorMode (r_Image result))
           then Some (InvalidColorMode (ii_ColorMode (r_Image result)))
         else (case validateLines 0 (tr_Lines (r_Text result)) of
                 Some e \<Rightarrow> Some e
               | None \<Rightarrow>
                  if sd_KeyValuePairs (r_StructuredData result) = None then Some KeyValuePairsNil
                  else if sd_Tables (r_StructuredData result) = None then Some TablesNil
                  else None))"

section \<open>The prompt (prompt/ocr_prompt.go)\<close>

record PromptConfig =
  pt_WithSummary :: bool
  pt_WithLanguageDetection :: bool
  pt_WithStructuredExtraction :: bool
  pt_WithBoundingBoxes :: bool
  pt_WithConfidenceScores :: bool

text \<open>The string literals that \<open>BuildOCRPrompt\<close> writes, in the order of the source.\<close>

definition prompt_head :: string where
  \<open>prompt_head =
     ''You are a precise OCR engine. Analyze the provided image and extract all text content.\<newline>'' @
     ''\<newline>'' @
     ''CRITICAL INSTRUCTIONS:\<newline>'' @
     ''- Respond ONLY with valid JSON.\<newline>'' @
     ''- No markdown. No code fences. No explanations. No comments.\<newline>'' @
     ''- Do NOT wrap the JSON in backticks or any markup.\<newline>'' @
     ''- Output MUST start with { and end with }\<newline>'' @
     ''- Every string value must be properly escaped.\<newline>'' @
     ''\<newline>'' @
     ''You must return a JSON object with EXACTLY this structure:\<newline>'' @
     ''\<newline>'' @
     ''{\<newline>'' @
     ''  "metadata": {\<newline>'' @
     ''    "language": ''\<close>

definition prompt_language_on :: string where
  \<open>prompt_language_on =
     ''"<detected ISO 639-1 language code or null if unknown>",''\<close>

definition prompt_language_off :: string where
  \<open>prompt_language_off =
     ''null,''\<close>

definition prompt_schema :: string where
  \<open>prompt_schema =
     ''\<newline>'' @
     ''    "document_type": "<one of: invoice, receipt, id_card, contract, unknown>",\<newline>'' @
     ''    "confidence_score": <float between 0.0 and 1.0 representing overall OCR confidence>\<newline>'' @
     ''  },\<newline>'' @
     ''  "text": {\<newline>'' @
     ''    "raw": "<all extracted text as a single string, preserving line breaks with '' @ [CHR 0x5C] @ [CHR 0x5C] @ ''n>",\<newline>'' @
     ''    "lines": [\<newline>'' @
     ''      {\<newline>'' @
     ''        "text": "<text content of this line>",''\<close>

definition prompt_bbox_on :: string where
  \<open>prompt_bbox_on =
     ''\<newline>'' @
     ''        "bounding_box": {\<newline>'' @
     ''          "x": <estimated x coordinate>,\<newline>'' @
     ''          "y": <estimated y coordinate>,\<newline>'' @
     ''          "width": <estimated width>,\<newline>'' @
     ''          "height": <estimated height>\<newline>'' @
     ''        },''\<close>

definition prompt_bbox_off :: string where
  \<open>prompt_bbox_off =
     ''\<newline>'' @
     ''        "bounding_box": null,''\<close>

definition prompt_confidence_on :: string where
  \<open>prompt_confidence_on =
     ''\<newline>'' @
     ''        "confidence": <float between 0.0 and 1.0>''\<close>

definition prompt_confidence_off :: string where
  \<open>prompt_confidence_off =
     ''\<newline>'' @
     ''        "confidence": 0.0''\<close>

definition prompt_lines_end :: string where
  \<open>prompt_lines_end =
     ''\<newline>'' @
     ''      }\<newline>'' @
     ''    ]\<newline>'' @
     ''  },''\<close>

definition prompt_structured_on :: string where
  \<open>prompt_structured_on =
     ''\<newline>'' @
     ''  "structured_data": {\<newline>'' @
     ''    "key_value_pairs": {\<newline>'' @
     ''      "<key>": "<value>"\<newline>'' @
     ''    },\<newline>'' @
     ''    "tables": [\<newline>'' @
     ''      {\<newline>'' @
     ''        "headers": ["<column header 1>", "<column header 2>"],\<newline>'' @
     ''        "rows": [["<cell 1>", "<cell 2>"]]\<newline>'' @
     ''      }\<newline>'' @
     ''    ]\<newline>'' @
     ''  },''\<close>

definition prompt_structured_off :: string where
  \<open>prompt_structured_off =
     ''\<newline>'' @
     ''  "structured_data": {\<newline>'' @
     ''    "key_value_pairs": {},\<newline>'' @
     ''    "tables": []\<newline>'' @
     ''  },''\<close>

definition prompt_summary_on :: string where
  \<open>prompt_summary_on =
     ''\<newline>'' @
     ''  "summary": "<brief natural language summary of the document content>"''\<close>

definition prompt_summary_off :: string where
  \<open>prompt_summary_off =
     ''\<newline>'' @
     ''  "summary": null''\<close>

definition prompt_rules :: string where
  \<open>prompt_rules =
     ''\<newline>'' @
     ''}\<newline>'' @
     ''\<newline>'' @
     ''RULES:\<newline>'' @
     ''1. Extract ALL visible text from the image, missing nothing.\<newline>'' @
     ''2. "document_type" MUST be exactly one of: "invoice", "receipt", "id_card", "contract", "unknown".\<newline>'' @
     ''3. If no tables are found, return "tables": [].\<newline>'' @
     ''4. If no key-value pairs are found, return "key_value_pairs": {}.\<newline>'' @
     ''5. "lines" must contain every line of text found, even if only one.''\<close>

definition prompt_rule6 :: string where
  \<open>prompt_rule6 =
     ''\<newline>'' @
     ''6. Estimate bounding boxes as best as possible based on text position in the image.''\<close>

definition prompt_rule7 :: string where
  \<open>prompt_rule7 =
     ''\<newline>'' @
     ''7. Detect the primary language of the document and use ISO 639-1 codes (e.g., "en", "fr", "de").''\<close>

definition prompt_tail :: string where
  \<open>prompt_tail =
     ''\<newline>'' @
     ''\<newline>'' @
     ''Remember: Output ONLY the JSON object. Nothing else.''\<close>

text \<open>The writes to the string builder, in order.\<close>

definition BuildOCRPrompt :: "PromptConfig \<Rightarrow> string" where
  "BuildOCRPrompt cfg =
     prompt_head
     @ (if pt_WithLanguageDetection cfg then prompt_language_on else prompt_language_off)
     @ prompt_schema
     @ (if pt_WithBoundingBoxes cfg then prompt_bbox_on else prompt_bbox_off)
     @ (if pt_WithConfidenceScores cfg then prompt_confidence_on else prompt_confidence_off)
     @ prompt_lines_end
     @ (if pt_WithStructuredExtraction cfg then prompt_structured_on else prompt_structured_off)
     @ (if pt_WithSummary cfg then prompt_summary_on else prompt_summary_off)
     @ prompt_rules
     @ (if pt_WithBoundingBoxes cfg then prompt_rule6 else [])
     @ (if pt_WithLanguageDetection cfg then prompt_rule7 else [])
     @ prompt_tail"

section \<open>The model client's messages (client package)\<close>

record ModelOptions =
  mo_Temperature :: real
  mo_NumPredict :: "64 word"

record GenerateRequest =
  gq_Model :: string
  gq_Prompt :: string
  gq_Images :: "string list"
  gq_Stream :: bool
  gq_Options :: "ModelOptions option"
  gq_Format :: string

record GenerateResponse =
  gr_Model :: string
  gr_CreatedAt :: string
  gr_Response :: string
  gr_Done :: bool
  gr_TotalDuration :: "64 word"
  gr_LoadDuration :: "64 word"
  gr_PromptEvalCount :: "64 word"
  gr_PromptEvalDuration :: "64 word"
  gr_EvalCount :: "64 word"
  gr_EvalDuration :: "64 word"

section \<open>The extraction engine\<close>

text \<open>
  Errors are values. \<open>External\<close> is an error made outside the code modelled here (the
  HTTP client, \<open>encoding/json\<close>, the PDF converter), with its message; the other
  constructors are the \<open>fmt.Errorf\<close> wrappers of the engine, each holding the error it
  wraps. \<open>AllAttemptsFailed\<close> wraps \<open>lastErr\<close>, a variable that starts as \<open>nil\<close>.
\<close>

datatype error =
    External string
  | ContextErr
  | JSONUnmarshal error
  | OllamaGenerate nat error
  | ParseResponse nat error
  | AllAttemptsFailed "error option"
  | ConvertPDF error
  | PDFNoPages
  | ProcessPage nat error

text \<open>
  What the engine does not compute itself is a parameter, collected in a record: the
  outcome of the \<open>n\<close>-th call of \<open>client.Generate\<close> on a request (\<open>Inl\<close> a transport
  failure), \<open>json.Unmarshal\<close> into the forgiving response, base64 encoding, the clock
  (\<open>time.Since(startTime)\<close> once \<open>n\<close> calls have been made) and the cancellation signal
  (\<open>ctx.Done()\<close> once \<open>n\<close> calls have been made). The state threaded through the engine is
  the list of the generation requests sent so far, oldest first.
\<close>

record World =
  w_Generate :: "nat \<Rightarrow> GenerateRequest \<Rightarrow> string + GenerateResponse"
  w_Unmarshal :: "string \<Rightarrow> string + OllamaVisionResponse"
  w_EncodeBase64 :: "string \<Rightarrow> string"
  w_Since :: "nat \<Rightarrow> 64 word"
  w_Done :: "nat \<Rightarrow> bool"

record ProcessConfig =
  pc_Model :: string
  pc_Temperature :: real
  pc_RequestID :: string
  pc_WithSummary :: bool
  pc_WithLanguageDetection :: bool
  pc_WithStructuredExtraction :: bool
  pc_WithBoundingBoxes :: bool
  pc_WithConfidenceScores :: bool

text \<open>
  \<open>VisionResponse\<close> is a pointer in Go; \<open>Process\<close> always sets it to a fresh response and
  \<open>mergeResults\<close> dereferences it without a test, so it is a plain field here.
\<close>

record ProcessResult =
  pr_VisionResponse :: OllamaVisionResponse
  pr_Model :: string
  pr_PromptTokens :: "64 word"
  pr_EvalTokens :: "64 word"
  pr_Latency :: "64 word"

definition ParseAndValidateJSON :: "World \<Rightarrow> string \<Rightarrow> error + OllamaVisionResponse" where
  "ParseAndValidateJSON w raw =
     (let cleaned = CleanJSONResponse raw
      in case w_Unmarshal w cleaned of
           Inl err \<Rightarrow> Inl (JSONUnmarshal (External err))
         | Inr resp \<Rightarrow> Inr resp)"

text \<open>
  The loop \<open>for attempt := 0; attempt <= 1; attempt++\<close> of \<open>Process\<close>, from \<open>attempt\<close>
  with the current \<open>lastErr\<close> and the requests sent so far.
\<close>

function Process_attempts ::
  "World \<Rightarrow> GenerateRequest \<Rightarrow> nat \<Rightarrow> error option \<Rightarrow> GenerateRequest list
     \<Rightarrow> (error + ProcessResult) \<times> GenerateRequest list" where
  "Process_attempts w req attempt lastErr sent =
     (if attempt \<le> 1 then
        (case w_Generate w (length sent) req of
           Inl err \<Rightarrow> (Inl (OllamaGenerate attempt (External err)), sent @ [req])
         | Inr resp \<Rightarrow>
            (case ParseAndValidateJSON w (gr_Response resp) of
               Inl err \<Rightarrow>
                 Process_attempts w req (attempt + 1) (Some (ParseResponse attempt err)) (sent @ [req])
             | Inr visionResp \<Rightarrow>
                 (Inr \<lparr>pr_VisionResponse = visionResp,
                       pr_Model = gr_Model resp,
                       pr_PromptTokens = gr_PromptEvalCount resp,
                       pr_EvalTokens = gr_EvalCount resp,
                       pr_Latency = w_Since w (length (sent @ [req]))\<rparr>,
                  sent @ [req])))
      else (Inl (AllAttemptsFailed lastErr), sent))"
  by pat_completeness auto
termination
  by (relation "measure (\<lambda>(w, req, attempt, lastErr, sent). 2 - attempt)") auto

declare Process_attempts.simps [simp del]

text \<open>Lines 65 to 89 of \<open>Process\<close>: the prompt, the encoded image and the request.\<close>

definition Process_request :: "World \<Rightarrow> string \<Rightarrow> ProcessConfig \<Rightarrow> GenerateRequest" where
  "Process_request w imageData cfg =
     (let promptCfg = \<lparr>pt_WithSummary = pc_WithSummary cfg,
                        pt_WithLanguageDetection = pc_WithLanguageDetection cfg,
                        pt_WithStructuredExtraction = pc_WithStructuredExtraction cfg,
                        pt_WithBoundingBoxes = pc_WithBoundingBoxes cfg,
                        pt_WithConfidenceScores = pc_WithConfidenceScores cfg\<rparr>;
          ocrPrompt = BuildOCRPrompt promptCfg;
          base64Image = w_EncodeBase64 w imageData
      in \<lparr>gq_Model = pc_Model cfg,
          gq_Prompt = ocrPrompt,
          gq_Images = [base64Image],
          gq_Stream = False,
          gq_Options = Some \<lparr>mo_Temperature = pc_Temperature cfg, mo_NumPredict = 4096\<rparr>,
          gq_Format = ''json''\<rparr>)"

definition Process ::
  "World \<Rightarrow> GenerateRequest list \<Rightarrow> string \<Rightarrow> ProcessConfig
     \<Rightarrow> (error + ProcessResult) \<times> GenerateRequest list" where
  "Process w sent imageData cfg =
     Process_attempts w (Process_request w imageData cfg) 0 None sent"

subsection \<open>Merging page results\<close>

text \<open>
  The variables that the loop of \<open>mergeResults\<close> updates: the fields of \<open>merged\<close> it
  writes (lines, key-value map, tables, summary, token counts), \<open>rawParts\<close> and
  \<open>totalLatency\<close>.
\<close>

record MergeState =
  ms_Lines :: "OllamaTextLine list"
  ms_KeyValuePairs :: "string \<rightharpoonup> string"
  ms_Tables :: "Table list option"
  ms_Summary :: "string option"
  ms_PromptTokens :: "64 word"
  ms_EvalTokens :: "64 word"
  ms_rawParts :: "string list"
  ms_totalLatency :: "64 word"

text \<open>
  One round of the loop, for the page result \<open>r\<close> at index \<open>i\<close>. The inner loop
  \<open>for k, v := range ... { merged[k] = v }\<close> assigns every entry of the page's map (each
  key once), which is the map override \<open>++\<close> whatever the order of the visit.
\<close>

definition mergeStep :: "nat \<Rightarrow> ProcessResult \<Rightarrow> MergeState \<Rightarrow> MergeState" where
  "mergeStep i r st =
     (let st = st\<lparr>ms_totalLatency := ms_totalLatency st + pr_Latency r,
                  ms_PromptTokens := ms_PromptTokens st + pr_PromptTokens r,
                  ms_EvalTokens := ms_EvalTokens st + pr_EvalTokens r\<rparr>;
          st = (case vr_Text (pr_VisionResponse r) of
                  None \<Rightarrow> st
                | Some text \<Rightarrow>
                    (let pagePrefix = ''--- Page '' @ decimal (i + 1) @ '' ---\<newline>''
                     in st\<lparr>ms_rawParts := ms_rawParts st @ [pagePrefix @ ot_Raw text],
                           ms_Lines := ms_Lines st @ ot_Lines text\<rparr>));
          st = (case vr_StructuredData (pr_VisionResponse r) of
                  None \<Rightarrow> st
                | Some sd \<Rightarrow>
                    st\<lparr>ms_KeyValuePairs := ms_KeyValuePairs st ++ entries (os_KeyValuePairs sd),
                       ms_Tables := append_slice (ms_Tables st) (os_Tables sd)\<rparr>)
      in (case vr_Summary (pr_VisionResponse r) of
            None \<Rightarrow> st
          | Some s \<Rightarrow> st\<lparr>ms_Summary := Some s\<rparr>))"

fun mergeLoop :: "nat \<Rightarrow> ProcessResult list \<Rightarrow> MergeState \<Rightarrow> MergeState" where
  "mergeLoop i [] st = st"
| "mergeLoop i (r # rs) st = mergeLoop (i + 1) rs (mergeStep i r st)"

text \<open>\<open>mergeResults\<close> returns a pointer: \<open>None\<close> is the \<open>nil\<close> it returns for no result.\<close>

fun mergeResults :: "ProcessResult list \<Rightarrow> ProcessResult option" where
  "mergeResults [] = None"
| "mergeResults [r] = Some r"
| "mergeResults (r0 # r1 # rs) =
     (let st = mergeLoop 0 (r0 # r1 # rs)
                 \<lparr>ms_Lines = [], ms_KeyValuePairs = Map.empty, ms_Tables = None,
                  ms_Summary = None, ms_PromptTokens = 0, ms_EvalTokens = 0,
                  ms_rawParts = [], ms_totalLatency = 0\<rparr>
      in Some \<lparr>pr_VisionResponse =
                 \<lparr>vr_Metadata = vr_Metadata (pr_VisionResponse r0),
                  vr_Text = Some \<lparr>ot_Raw = Join (ms_rawParts st) ''\<newline>'',
                                  ot_Lines = ms_Lines st\<rparr>,
                  vr_StructuredData = Some \<lparr>os_KeyValuePairs = Some (ms_KeyValuePairs st),
                                            os_Tables = ms_Tables st\<rparr>,
                  vr_Summary = ms_Summary st,
                  vr_Image = None\<rparr>,
               pr_Model = pr_Model r0,
               pr_PromptTokens = ms_PromptTokens st,
               pr_EvalTokens = ms_EvalTokens st,
               pr_Latency = ms_totalLatency st\<rparr>)"

subsection \<open>Multi-page documents\<close>

text \<open>
  The loop over the pages of \<open>ProcessPDF\<close>, for the pages from index \<open>i\<close> on, with the
  results collected so far.
\<close>

fun ProcessPDF_pages ::
  "World \<Rightarrow> ProcessConfig \<Rightarrow> nat \<Rightarrow> string list \<Rightarrow> ProcessResult list \<Rightarrow> GenerateRequest list
     \<Rightarrow> (error + ProcessResult option) \<times> GenerateRequest list" where
  "ProcessPDF_pages w cfg i [] allResults sent = (Inr (mergeResults allResults), sent)"
| "ProcessPDF_pages w cfg i (page # pages) allResults sent =
     (if w_Done w (length sent) then (Inl ContextErr, sent)
      else (case Process w sent page cfg of
              (Inl err, sent') \<Rightarrow> (Inl (ProcessPage (i + 1) err), sent')
            | (Inr result, sent') \<Rightarrow>
                ProcessPDF_pages w cfg (i + 1) pages (allResults @ [result]) sent'))"

text \<open>
  \<open>ProcessPDF\<close>; \<open>converted\<close> is the outcome of \<open>utils.PDFToImages\<close> on the file, one
  image per page. The result is a pointer, \<open>Some\<close> whenever \<open>Process\<close> made it.
\<close>

definition ProcessPDF ::
  "World \<Rightarrow> GenerateRequest list \<Rightarrow> string + string list \<Rightarrow> ProcessConfig
     \<Rightarrow> (error + ProcessResult option) \<times> GenerateRequest list" where
  "ProcessPDF w sent converted cfg =
     (case converted of
        Inl err \<Rightarrow> (Inl (ConvertPDF (External err)), sent)
      | Inr pages \<Rightarrow>
          if length pages = 0 then (Inl PDFNoPages, sent)
          else if length pages = 1 then
            (case Process w sent (pages ! 0) cfg of
               (Inl err, sent') \<Rightarrow> (Inl err, sent')
             | (Inr result, sent') \<Rightarrow> (Inr (Some result), sent'))
          else ProcessPDF_pages w cfg 0 pages [] sent)"

section \<open>Assembling the result (ocr.go, utils)\<close>

text \<open>
  \<open>GetImageInfo\<close>; \<open>decoded\<close> is the outcome of \<open>image.DecodeConfig\<close> on the bytes. A
  colour model is \<open>color.YCbCrModel\<close> or another one, given by the name of its type
  (\<open>fmt.Sprintf("%T", ...)\<close>).
\<close>

datatype ColorModel = YCbCrModel | OtherModel string

record DecodedConfig =
  dc_ColorModel :: "ColorModel option"
  dc_Width :: "64 word"
  dc_Height :: "64 word"

definition GetImageInfo :: "string + DecodedConfig \<Rightarrow> string \<Rightarrow> ImageInfo" where
  "GetImageInfo decoded ext =
     (if ToLower ext = ''.pdf''
        then \<lparr>ii_Width = 0, ii_Height = 0, ii_DPI = None, ii_ColorMode = ColorModeUnknown\<rparr>
      else (case decoded of
              Inl err \<Rightarrow>
                \<lparr>ii_Width = 0, ii_Height = 0, ii_DPI = None, ii_ColorMode = ColorModeUnknown\<rparr>
            | Inr cfg \<Rightarrow>
                (let colorMode =
                   (case dc_ColorModel cfg of
                      None \<Rightarrow> ColorModeUnknown
                    | Some YCbCrModel \<Rightarrow> ColorModeRGB
                    | Some (OtherModel modelStr) \<Rightarrow>
                        if Contains modelStr ''RGBA'' \<or> Contains modelStr ''NRGBA'' then ColorModeRGB
                        else if Contains modelStr ''Gray'' then ColorModeGrayscale
                        else if Contains modelStr ''CMYK'' then ColorModeCMYK
                        else ColorModeUnknown)
                 in \<lparr>ii_Width = dc_Width cfg, ii_Height = dc_Height cfg, ii_DPI = None,
                      ii_ColorMode = colorMode\<rparr>)))"

definition buildMetadata :: "OllamaVisionResponse \<Rightarrow> Metadata" where
  "buildMetadata resp =
     (let md = \<lparr>md_Language = None, md_DocumentType = DocumentTypeUnknown, md_ConfidenceScore = 0\<rparr>
      in case vr_Metadata resp of
           None \<Rightarrow> md
         | Some m \<Rightarrow>
             (let md = md\<lparr>md_Language := om_Language m,
                          md_ConfidenceScore := om_ConfidenceScore m\<rparr>;
                  dt = om_DocumentType m
              in if present ValidDocumentTypes dt then md\<lparr>md_DocumentType := dt\<rparr> else md))"

text \<open>The body of the loop of \<open>buildText\<close> for one line.\<close>

definition buildLine :: "Config \<Rightarrow> OllamaTextLine \<Rightarrow> TextLine" where
  "buildLine cfg line =
     (let tl = \<lparr>tl_Text = ol_Text line, tl_BoundingBox = None, tl_Confidence = ol_Confidence line\<rparr>;
          tl = (if cfg_WithBoundingBoxes cfg \<and> ol_BoundingBox line \<noteq> None
                then tl\<lparr>tl_BoundingBox := ol_BoundingBox line\<rparr> else tl)
      in if \<not> cfg_WithConfidenceScores cfg then tl\<lparr>tl_Confidence := 0\<rparr> else tl)"

fun buildText_lines :: "Config \<Rightarrow> OllamaTextLine list \<Rightarrow> TextLine list \<Rightarrow> TextLine list" where
  "buildText_lines cfg [] acc = acc"
| "buildText_lines cfg (line # rest) acc = buildText_lines cfg rest (acc @ [buildLine cfg line])"

definition buildText :: "OllamaVisionResponse \<Rightarrow> Config \<Rightarrow> TextResult" where
  "buildText resp cfg =
     (let text = \<lparr>tr_Raw = [], tr_Lines = []\<rparr>
      in case vr_Text resp of
           None \<Rightarrow> text
         | Some t \<Rightarrow>
             (let text = text\<lparr>tr_Raw := ot_Raw t\<rparr>
              in text\<lparr>tr_Lines := buildText_lines cfg (ot_Lines t) (tr_Lines text)\<rparr>))"

definition buildStructuredData :: "OllamaVisionResponse \<Rightarrow> Config \<Rightarrow> StructuredData" where
  "buildStructuredData resp cfg =
     (let sd = \<lparr>sd_KeyValuePairs = Some Map.empty, sd_Tables = Some []\<rparr>
      in if \<not> cfg_WithStructuredExtraction cfg \<or> vr_StructuredData resp = None then sd
         else (case vr_StructuredData resp of
                 None \<Rightarrow> sd
               | Some rsd \<Rightarrow>
                   (let sd = (if os_KeyValuePairs rsd \<noteq> None
                              then sd\<lparr>sd_KeyValuePairs := os_KeyValuePairs rsd\<rparr> else sd)
                    in if os_Tables rsd \<noteq> None then sd\<lparr>sd_Tables := os_Tables rsd\<rparr> else sd)))"

definition buildSummary :: "OllamaVisionResponse \<Rightarrow> Config \<Rightarrow> string option" where
  "buildSummary resp cfg = (if \<not> cfg_WithSummary cfg then None else vr_Summary resp)"

definition buildOCRResult ::
  "string \<Rightarrow> SourceType \<Rightarrow> string \<Rightarrow> ImageInfo \<Rightarrow> ProcessResult \<Rightarrow> Config \<Rightarrow> OCRResult" where
  "buildOCRResult source sourceType checksum imageInfo result cfg =
     (let ocrResult =
            \<lparr>r_Source = \<lparr>so_Type = sourceType, so_Path = source, so_Checksum = checksum\<rparr>,
             r_Image = imageInfo,
             r_Metadata = buildMetadata (pr_VisionResponse result),
             r_Text = buildText (pr_VisionResponse result) cfg,
             r_StructuredData = buildStructuredData (pr_VisionResponse result) cfg,
             r_Summary = buildSummary (pr_VisionResponse result) cfg\<rparr>
      in case vr_Image (pr_VisionResponse result) of
           None \<Rightarrow> ocrResult
         | Some vi \<Rightarrow>
             (let img = r_Image ocrResult;
                  img = (if 0 <s oi_Width vi then img\<lparr>ii_Width := oi_Width vi\<rparr> else img);
                  img = (if 0 <s oi_Height vi then img\<lparr>ii_Height := oi_Height vi\<rparr> else img);
                  img = (if oi_DPI vi \<noteq> None then img\<lparr>ii_DPI := oi_DPI vi\<rparr> else img);
                  img = (if oi_ColorMode vi \<noteq> [] \<and> present ValidColorModes (oi_ColorMode vi)
                         then img\<lparr>ii_ColorMode := oi_ColorMode vi\<rparr> else img)
              in ocrResult\<lparr>r_Image := img\<rparr>))"

text \<open>
  The end of \<open>Extract\<close>, from the engine's result on (lines 174 to 190): the result is
  built and validated; a validation error is logged as a warning and the result is
  returned all the same. The pair is the value returned and the warning logged, if any.
\<close>

definition Extract_result ::
  "string \<Rightarrow> SourceType \<Rightarrow> string \<Rightarrow> ImageInfo \<Rightarrow> ProcessResult \<Rightarrow> Config
     \<Rightarrow> OCRResult \<times> validation_error option" where
  "Extract_result source sourceType checksum imageInfo result cfg =
     (let ocrResult = buildOCRResult source sourceType checksum imageInfo result cfg
      in (ocrResult, ValidateOCRResult (Some ocrResult)))"

section \<open>Notions used to state the properties\<close>

text \<open>
  A reply wrapped in a markdown JSON code fence, written as the test of
  \<open>CleanJSONResponse\<close> in the repository writes it: the opening fence and the closing
  fence each on a line of their own.
\<close>

definition fence_json :: "string \<Rightarrow> string" where
  "fence_json s = ''```json\<newline>'' @ s @ ''\<newline>```''"

text \<open>
  A string has an object candidate when it contains a \<open>{\<close> and a \<open>}\<close> and the first
  \<open>{\<close> is strictly before the last \<open>}\<close>; it is brace free when it contains neither.
  \<open>space_bytes\<close> are the bytes that occur in the encodings of the white-space runes.
\<close>

definition braced :: "string \<Rightarrow> bool" where
  "braced s \<longleftrightarrow> CHR ''{'' \<in> set s \<and> CHR ''}'' \<in> set s \<and> firstPos CHR ''{'' s < lastPos CHR ''}'' s"

definition brace_free :: "string \<Rightarrow> bool" where
  "brace_free a \<longleftrightarrow> CHR ''{'' \<notin> set a \<and> CHR ''}'' \<notin> set a"

definition space_bytes :: "char set" where
  "space_bytes = set (concat space_runes)"

text \<open>
  The enumerated values of the result schema, and the range condition on the confidence
  values of a result, on the document score of a reply (none when its metadata is nil)
  and on the line confidences of a reply (none when its text is nil).
\<close>

definition documentTypes :: "DocumentType list" where
  "documentTypes = [DocumentTypeInvoice, DocumentTypeReceipt, DocumentTypeIDCard,
                    DocumentTypeContract, DocumentTypeUnknown]"

definition colorModes :: "ColorMode list" where
  "colorModes = [ColorModeRGB, ColorModeGrayscale, ColorModeCMYK, ColorModeUnknown]"

definition confidences_in_range :: "OCRResult \<Rightarrow> bool" where
  "confidences_in_range r \<longleftrightarrow>
     0 \<le> md_ConfidenceScore (r_Metadata r) \<and> md_ConfidenceScore (r_Metadata r) \<le> 1 \<and>
     list_all (\<lambda>l. 0 \<le> tl_Confidence l \<and> tl_Confidence l \<le> 1) (tr_Lines (r_Text r))"

definition reply_score_in_range :: "OllamaVisionResponse \<Rightarrow> bool" where
  "reply_score_in_range resp \<longleftrightarrow>
     (case vr_Metadata resp of
        None \<Rightarrow> True
      | Some m \<Rightarrow> 0 \<le> om_ConfidenceScore m \<and> om_ConfidenceScore m \<le> 1)"

definition reply_lines_in_range :: "OllamaVisionResponse \<Rightarrow> bool" where
  "reply_lines_in_range resp \<longleftrightarrow>
     (case vr_Text resp of
        None \<Rightarrow> True
      | Some t \<Rightarrow> list_all (\<lambda>l. 0 \<le> ol_Confidence l \<and> ol_Confidence l \<le> 1) (ot_Lines t))"

text \<open>
  What one page result contributes to a merge: its text lines, its tables and its
  key-value map (nothing for a section that is nil). \<open>lastValue k\<close> is the value of key
  \<open>k\<close> on the last page that has the key; \<open>lastSummary\<close> is the summary of the last page
  whose summary is not nil.
\<close>

definition pageLines :: "ProcessResult \<Rightarrow> OllamaTextLine list" where
  "pageLines r = (case vr_Text (pr_VisionResponse r) of None \<Rightarrow> [] | Some t \<Rightarrow> ot_Lines t)"

definition pageTables :: "ProcessResult \<Rightarrow> Table list" where
  "pageTables r =
     (case vr_StructuredData (pr_VisionResponse r) of None \<Rightarrow> [] | Some sd \<Rightarrow> elems (os_Tables sd))"

definition pageKeyValues :: "ProcessResult \<Rightarrow> (string \<rightharpoonup> string)" where
  "pageKeyValues r =
     (case vr_StructuredData (pr_VisionResponse r) of
        None \<Rightarrow> Map.empty
      | Some sd \<Rightarrow> entries (os_KeyValuePairs sd))"

definition lastValue :: "string \<Rightarrow> ProcessResult list \<Rightarrow> string option" where
  "lastValue k rs =
     (case filter (\<lambda>r. pageKeyValues r k \<noteq> None) rs of
        [] \<Rightarrow> None
      | ps \<Rightarrow> pageKeyValues (last ps) k)"

definition lastSummary :: "ProcessResult list \<Rightarrow> string option" where
  "lastSummary rs =
     (case filter (\<lambda>r. vr_Summary (pr_VisionResponse r) \<noteq> None) rs of
        [] \<Rightarrow> None
      | ps \<Rightarrow> vr_Summary (pr_VisionResponse (last ps)))"

text \<open>
  The field names of the JSON schema that the prompt describes, as they appear in JSON
  (between double quotes): the names of the fixed shape, the names inside a table and
  the names inside a bounding box. \<open>prompt_parts\<close> lists the strings that
  \<open>BuildOCRPrompt\<close> writes for a configuration.
\<close>

definition quoted :: "string \<Rightarrow> string" where
  "quoted name = [CHR 0x22] @ name @ [CHR 0x22]"

definition schema_fields :: "string list" where
  "schema_fields =
     [''metadata'', ''language'', ''document_type'', ''confidence_score'', ''text'', ''raw'',
      ''lines'', ''bounding_box'', ''confidence'', ''structured_data'', ''key_value_pairs'',
      ''tables'', ''summary'']"

definition table_fields :: "string list" where
  "table_fields = [''headers'', ''rows'']"

definition box_fields :: "string list" where
  "box_fields = [''x'', ''y'', ''width'', ''height'']"

definition names_in :: "string \<Rightarrow> string list \<Rightarrow> bool" where
  "names_in p fs = list_all (\<lambda>f. Contains p (quoted f)) fs"

definition prompt_parts :: "PromptConfig \<Rightarrow> string list" where
  "prompt_parts cfg =
     [prompt_head,
      if pt_WithLanguageDetection cfg then prompt_language_on else prompt_language_off,
      prompt_schema,
      if pt_WithBoundingBoxes cfg then prompt_bbox_on else prompt_bbox_off,
      if pt_WithConfidenceScores cfg then prompt_confidence_on else prompt_confidence_off,
      prompt_lines_end,
      if pt_WithStructuredExtraction cfg then prompt_structured_on else prompt_structured_off,
      if pt_WithSummary cfg then prompt_summary_on else prompt_summary_off,
      prompt_rules,
      if pt_WithBoundingBoxes cfg then prompt_rule6 else [],
      if pt_WithLanguageDetection cfg then prompt_rule7 else [],
      prompt_tail]"

subsection \<open>Example inputs\<close>

text \<open>
  Replies, measured image data, a page result holding a reply, a scripted model client
  (the \<open>n\<close>-th call returns the \<open>n\<close>-th entry of the script; only \<open>{}\<close> deserializes)
  and configurations, for the concrete instances below.
\<close>

definition language_reply :: OllamaVisionResponse where
  "language_reply =
     \<lparr>vr_Metadata = Some \<lparr>om_Language = Some ''en'', om_DocumentType = ''invoice'',
                           om_ConfidenceScore = 9 / 10\<rparr>,
      vr_Text = None, vr_StructuredData = None, vr_Summary = None, vr_Image = None\<rparr>"

definition overconfident_reply :: OllamaVisionResponse where
  "overconfident_reply =
     \<lparr>vr_Metadata = Some \<lparr>om_Language = None, om_DocumentType = ''invoice'',
                           om_ConfidenceScore = 3 / 2\<rparr>,
      vr_Text = Some \<lparr>ot_Raw = ''Total'',
                      ot_Lines = [\<lparr>ol_Text = ''Total'', ol_BoundingBox = None, ol_Confidence = 7\<rparr>]\<rparr>,
      vr_StructuredData = None, vr_Summary = None, vr_Image = None\<rparr>"

definition plain_reply :: OllamaVisionResponse where
  "plain_reply =
     \<lparr>vr_Metadata = Some \<lparr>om_Language = None, om_DocumentType = ''receipt'',
                           om_ConfidenceScore = 4 / 5\<rparr>,
      vr_Text = Some \<lparr>ot_Raw = ''Total'',
                      ot_Lines = [\<lparr>ol_Text = ''Total'', ol_BoundingBox = None, ol_Confidence = 1 / 2\<rparr>]\<rparr>,
      vr_StructuredData = None, vr_Summary = None, vr_Image = None\<rparr>"

definition overconfident_lines_reply :: OllamaVisionResponse where
  "overconfident_lines_reply =
     \<lparr>vr_Metadata = Some \<lparr>om_Language = None, om_DocumentType = ''receipt'',
                           om_ConfidenceScore = 4 / 5\<rparr>,
      vr_Text = Some \<lparr>ot_Raw = ''Total'',
                      ot_Lines = [\<lparr>ol_Text = ''Total'', ol_BoundingBox = None, ol_Confidence = 7\<rparr>]\<rparr>,
      vr_StructuredData = None, vr_Summary = None, vr_Image = None\<rparr>"

definition odd_reply :: OllamaVisionResponse where
  "odd_reply =
     \<lparr>vr_Metadata = Some \<lparr>om_Language = None, om_DocumentType = ''memo'',
                           om_ConfidenceScore = 1 / 2\<rparr>,
      vr_Text = None, vr_StructuredData = None, vr_Summary = None,
      vr_Image = Some \<lparr>oi_Width = 0, oi_Height = 0, oi_DPI = None, oi_ColorMode = ''Sepia''\<rparr>\<rparr>"

definition png_info :: ImageInfo where
  "png_info = \<lparr>ii_Width = 800, ii_Height = 600, ii_DPI = None, ii_ColorMode = ColorModeRGB\<rparr>"

definition jpeg_decoded :: "string + DecodedConfig" where
  "jpeg_decoded = Inr \<lparr>dc_ColorModel = Some YCbCrModel, dc_Width = 800, dc_Height = 600\<rparr>"

definition page_of :: "OllamaVisionResponse \<Rightarrow> ProcessResult" where
  "page_of resp =
     \<lparr>pr_VisionResponse = resp, pr_Model = ''llama3.2-vision'', pr_PromptTokens = 10,
      pr_EvalTokens = 20, pr_Latency = 1000\<rparr>"

definition reply_with :: "string \<Rightarrow> GenerateResponse" where
  "reply_with s =
     \<lparr>gr_Model = ''llama3.2-vision'', gr_CreatedAt = [], gr_Response = s, gr_Done = True,
      gr_TotalDuration = 0, gr_LoadDuration = 0, gr_PromptEvalCount = 0,
      gr_PromptEvalDuration = 0, gr_EvalCount = 0, gr_EvalDuration = 0\<rparr>"

definition empty_reply :: OllamaVisionResponse where
  "empty_reply = \<lparr>vr_Metadata = None, vr_Text = None, vr_StructuredData = None,
                  vr_Summary = None, vr_Image = None\<rparr>"

definition scripted_world :: "(string + GenerateResponse) list \<Rightarrow> World" where
  "scripted_world replies =
     \<lparr>w_Generate = (\<lambda>n req. if n < length replies then replies ! n else Inl ''no reply''),
      w_Unmarshal = (\<lambda>s. if s = ''{}'' then Inr empty_reply else Inl ''invalid character''),
      w_EncodeBase64 = (\<lambda>s. s),
      w_Since = (\<lambda>n. 0),
      w_Done = (\<lambda>n. False)\<rparr>"

definition some_config :: ProcessConfig where
  "some_config =
     \<lparr>pc_Model = ''llama3.2-vision'', pc_Temperature = 1 / 10, pc_RequestID = ''ocr-1'',
      pc_WithSummary = False, pc_WithLanguageDetection = True,
      pc_WithStructuredExtraction = True, pc_WithBoundingBoxes = True,
      pc_WithConfidenceScores = True\<rparr>"

definition all_on :: PromptConfig where
  "all_on = \<lparr>pt_WithSummary = True, pt_WithLanguageDetection = True,
             pt_WithStructuredExtraction = True, pt_WithBoundingBoxes = True,
             pt_WithConfidenceScores = True\<rparr>"

section \<open>Properties of the string functions\<close>

lemma Index_char:
  "Index s [c] = (if c \<in> set s then int (length (takeWhile (\<lambda>x. x \<noteq> c) s)) else -1)"
  by (induction s) (auto simp: Let_def)

lemma LastIndex_char:
  "LastIndex s [c] =
     (if c \<in> set s
      then int (length s) - 1 - int (length (takeWhile (\<lambda>x. x \<noteq> c) (rev s)))
      else -1)"
  by (simp add: LastIndex_def Index_char Let_def)

lemma takeWhile_lt:
  "c \<in> set s \<Longrightarrow> length (takeWhile (\<lambda>x. x \<noteq> c) s) < length s"
  by (induction s) auto

lemma lastPos_lt: "c \<in> set s \<Longrightarrow> lastPos c s < length s"
  by (cases s) (auto simp: lastPos_def)

lemma extractObject_cases:
  "extractObject s =
     (if CHR ''{'' \<in> set s \<and> CHR ''}'' \<in> set s \<and> firstPos CHR ''{'' s < lastPos CHR ''}'' s
      then take (lastPos CHR ''}'' s + 1 - firstPos CHR ''{'' s) (drop (firstPos CHR ''{'' s) s)
      else s)"
proof -
  have len: "c \<in> set s \<Longrightarrow> length (takeWhile (\<lambda>x. x \<noteq> c) (rev s)) < length s" for c
    using takeWhile_lt[of c "rev s"] by simp
  show ?thesis
    using len[of "CHR ''}''"]
    by (auto simp: extractObject_def Index_char LastIndex_char Let_def slice_def
          firstPos_def lastPos_def nat_diff_distrib intro!: arg_cong2[where f=take])
qed

lemma extractObject_unbraced: "\<not> braced x \<Longrightarrow> extractObject x = x"
  by (auto simp: extractObject_cases braced_def)

lemma Contains_sublist: "Contains s sub \<longleftrightarrow> sublist sub s"
  unfolding Contains_def
proof (induction s)
  case Nil
  then show ?case by simp
next
  case (Cons c t)
  then show ?case by (auto simp: Let_def sublist_Cons_right)
qed

lemma Contains_concat:
  assumes "seg \<in> set segs" "Contains seg sub"
  shows "Contains (concat segs) sub"
proof -
  from assms(1) obtain a b where "segs = a @ seg # b" by (auto dest: split_list)
  then have "concat segs = concat a @ seg @ concat b" by simp
  moreover from assms(2) obtain p q where "seg = p @ sub @ q"
    by (auto simp: Contains_sublist sublist_def)
  ultimately have "concat segs = (concat a @ p) @ sub @ (q @ concat b)" by simp
  then show ?thesis unfolding Contains_sublist sublist_def by blast
qed

subsection \<open>Trimming\<close>

lemma space_rune_bytes: "t \<in> set space_runes \<Longrightarrow> t \<noteq> [] \<and> set t \<subseteq> space_bytes"
  by (auto simp: space_bytes_def space_runes_def)

lemma not_space_bytes:
  "CHR ''`'' \<notin> space_bytes" "CHR ''{'' \<notin> space_bytes" "CHR ''}'' \<notin> space_bytes"
  by (simp_all add: space_bytes_def space_runes_def)

lemma leading_space_SomeD:
  "leading_space s = Some t \<Longrightarrow> t \<in> set space_runes \<and> prefix t s"
  by (auto simp: leading_space_def find_Some_iff)

lemma trailing_space_SomeD:
  "trailing_space s = Some t \<Longrightarrow> t \<in> set space_runes \<and> suffix t s"
  by (auto simp: trailing_space_def find_Some_iff)

lemma leading_space_NoneI:
  assumes "s = [] \<or> hd s \<notin> space_bytes"
  shows "leading_space s = None"
proof (rule ccontr)
  assume "leading_space s \<noteq> None"
  then obtain t where "leading_space s = Some t" by auto
  then have t: "t \<in> set space_runes" "prefix t s" using leading_space_SomeD by auto
  then have ne: "t \<noteq> []" and sub: "set t \<subseteq> space_bytes" using space_rune_bytes by auto
  from t(2) ne have "s \<noteq> []" "hd s = hd t" by (auto simp: prefix_def)
  moreover have "hd t \<in> space_bytes" using ne sub by (cases t) auto
  ultimately show False using assms by auto
qed

lemma trailing_space_NoneI:
  assumes "s = [] \<or> last s \<notin> space_bytes"
  shows "trailing_space s = None"
proof (rule ccontr)
  assume "trailing_space s \<noteq> None"
  then obtain t where "trailing_space s = Some t" by auto
  then have t: "t \<in> set space_runes" "suffix t s" using trailing_space_SomeD by auto
  then have ne: "t \<noteq> []" and sub: "set t \<subseteq> space_bytes" using space_rune_bytes by auto
  from t(2) ne have "s \<noteq> []" "last s = last t" by (auto simp: suffix_def)
  moreover have "last t \<in> space_bytes" using ne sub last_in_set by blast
  ultimately show False using assms by auto
qed

lemma TrimLeftSpace_decomp: "\<exists>a. s = a @ TrimLeftSpace s \<and> set a \<subseteq> space_bytes"
proof (induction s rule: TrimLeftSpace.induct)
  case (1 s)
  show ?case
  proof (cases "leading_space s")
    case None
    then show ?thesis by (simp add: TrimLeftSpace.simps[of s])
  next
    case (Some t)
    then have t: "t \<in> set space_runes" "prefix t s" using leading_space_SomeD by auto
    from 1[OF Some] obtain a where a: "drop (length t) s = a @ TrimLeftSpace (drop (length t) s)"
      "set a \<subseteq> space_bytes" by blast
    have s: "s = t @ drop (length t) s" using t(2) by (auto simp: prefix_def)
    have "s = (t @ a) @ TrimLeftSpace s"
      using Some a(1) s by (metis TrimLeftSpace.simps append.assoc option.simps(5))
    moreover have "set (t @ a) \<subseteq> space_bytes" using a(2) space_rune_bytes[OF t(1)] by auto
    ultimately show ?thesis by blast
  qed
qed

lemma TrimRightSpace_decomp: "\<exists>b. s = TrimRightSpace s @ b \<and> set b \<subseteq> space_bytes"
proof (induction s rule: TrimRightSpace.induct)
  case (1 s)
  show ?case
  proof (cases "trailing_space s")
    case None
    then show ?thesis by (simp add: TrimRightSpace.simps[of s])
  next
    case (Some t)
    then have t: "t \<in> set space_runes" "suffix t s" using trailing_space_SomeD by auto
    let ?s' = "take (length s - length t) s"
    from 1[OF Some] obtain b where b: "?s' = TrimRightSpace ?s' @ b"
      "set b \<subseteq> space_bytes" by blast
    have s: "s = ?s' @ t" using t(2) by (auto simp: suffix_def)
    have "TrimRightSpace s = TrimRightSpace ?s'" using Some by (simp add: TrimRightSpace.simps[of s])
    then have "s = TrimRightSpace s @ (b @ t)"
      using b(1) s by (metis append.assoc)
    moreover have "set (b @ t) \<subseteq> space_bytes" using b(2) space_rune_bytes[OF t(1)] by auto
    ultimately show ?thesis by blast
  qed
qed

lemma TrimSpace_decomp:
  "\<exists>a b. s = a @ TrimSpace s @ b \<and> set a \<subseteq> space_bytes \<and> set b \<subseteq> space_bytes"
proof -
  obtain a where a: "s = a @ TrimLeftSpace s" "set a \<subseteq> space_bytes"
    using TrimLeftSpace_decomp by blast
  obtain b where b: "TrimLeftSpace s = TrimSpace s @ b" "set b \<subseteq> space_bytes"
    using TrimRightSpace_decomp[of "TrimLeftSpace s"] by (auto simp: TrimSpace_def)
  from a(1) b(1) have "s = a @ TrimSpace s @ b" by simp
  with a(2) b(2) show ?thesis by blast
qed

lemma leading_space_TrimLeftSpace: "leading_space (TrimLeftSpace s) = None"
proof (induction s rule: TrimLeftSpace.induct)
  case (1 s)
  then show ?case by (cases "leading_space s") (auto simp: TrimLeftSpace.simps[of s])
qed

lemma trailing_space_TrimRightSpace: "trailing_space (TrimRightSpace s) = None"
proof (induction s rule: TrimRightSpace.induct)
  case (1 s)
  then show ?case by (cases "trailing_space s") (auto simp: TrimRightSpace.simps[of s])
qed

lemma leading_space_prefix:
  assumes "leading_space s = None" "prefix x s"
  shows "leading_space x = None"
  using assms unfolding leading_space_def find_None_iff
  by (meson prefix_order.trans)

lemma trimmed_TrimSpace:
  "leading_space (TrimSpace s) = None \<and> trailing_space (TrimSpace s) = None"
proof -
  have "prefix (TrimSpace s) (TrimLeftSpace s)"
    using TrimRightSpace_decomp[of "TrimLeftSpace s"] by (auto simp: TrimSpace_def prefix_def)
  then show ?thesis
    using leading_space_prefix[OF leading_space_TrimLeftSpace]
    by (simp add: TrimSpace_def trailing_space_TrimRightSpace)
qed

lemma TrimSpace_id:
  "leading_space s = None \<Longrightarrow> trailing_space s = None \<Longrightarrow> TrimSpace s = s"
  by (simp add: TrimSpace_def TrimLeftSpace.simps[of s] TrimRightSpace.simps[of s])

lemma TrimSpace_idem: "TrimSpace (TrimSpace s) = TrimSpace s"
  using trimmed_TrimSpace TrimSpace_id by blast

lemma space_rune_last_newline:
  "t \<in> set space_runes \<Longrightarrow> last t = CHR 0x0A \<Longrightarrow> t = [CHR 0x0A]"
  by (auto simp: space_runes_def)

lemma leading_space_snoc_newline:
  assumes "s \<noteq> []"
  shows "leading_space (s @ [CHR 0x0A]) = leading_space s"
proof -
  have "prefix t (s @ [CHR 0x0A]) = prefix t s" if "t \<in> set space_runes" for t
  proof
    assume p: "prefix t (s @ [CHR 0x0A])"
    show "prefix t s"
    proof (rule ccontr)
      assume "\<not> prefix t s"
      with p have "t = s @ [CHR 0x0A]" by (auto simp: prefix_snoc)
      then have "last t = CHR 0x0A" "length t \<ge> 2" using assms by (auto simp: Suc_le_eq)
      with space_rune_last_newline[OF that] show False by auto
    qed
  next
    assume "prefix t s" then show "prefix t (s @ [CHR 0x0A])" by (simp add: prefix_prefix)
  qed
  then show ?thesis unfolding leading_space_def by (intro find_cong) auto
qed

lemma leading_space_newline: "leading_space (CHR 0x0A # x) = Some [CHR 0x0A]"
  by (simp add: leading_space_def space_runes_def)

lemma suffix_single_snoc: "suffix [a] (x @ [b]) \<longleftrightarrow> a = b"
  by (auto simp: suffix_def)

lemma trailing_space_newline: "trailing_space (x @ [CHR 0x0A]) = Some [CHR 0x0A]"
  by (simp add: trailing_space_def space_runes_def suffix_single_snoc)

lemma TrimLeftSpace_Nil: "TrimLeftSpace [] = []"
  by (simp add: TrimLeftSpace.simps[of "[]"] leading_space_NoneI)

lemma TrimRightSpace_Nil: "TrimRightSpace [] = []"
  by (simp add: TrimRightSpace.simps[of "[]"] trailing_space_NoneI)

lemma TrimLeftSpace_newline: "TrimLeftSpace (CHR 0x0A # x) = TrimLeftSpace x"
  by (simp add: TrimLeftSpace.simps[of "CHR 0x0A # x"] leading_space_newline)

lemma TrimRightSpace_newline: "TrimRightSpace (x @ [CHR 0x0A]) = TrimRightSpace x"
  by (simp add: TrimRightSpace.simps[of "x @ [CHR 0x0A]"] trailing_space_newline)

lemma TrimLeftSpace_snoc_newline:
  "TrimLeftSpace (s @ [CHR 0x0A]) = (if TrimLeftSpace s = [] then [] else TrimLeftSpace s @ [CHR 0x0A])"
proof (induction s rule: TrimLeftSpace.induct)
  case (1 s)
  show ?case
  proof (cases "s = []")
    case True
    then show ?thesis by (simp add: TrimLeftSpace_newline TrimLeftSpace_Nil)
  next
    case ne: False
    note ls = leading_space_snoc_newline[OF ne]
    show ?thesis
    proof (cases "leading_space s")
      case None
      then show ?thesis using ne ls
        by (simp add: TrimLeftSpace.simps[of s] TrimLeftSpace.simps[of "s @ [CHR 0x0A]"])
    next
      case (Some t)
      then have "prefix t s" using leading_space_SomeD by auto
      then have "drop (length t) (s @ [CHR 0x0A]) = drop (length t) s @ [CHR 0x0A]"
        by (auto simp: prefix_def)
      then show ?thesis using 1[OF Some] Some ls
        by (simp add: TrimLeftSpace.simps[of s] TrimLeftSpace.simps[of "s @ [CHR 0x0A]"])
    qed
  qed
qed

lemma TrimSpace_newlines: "TrimSpace (CHR 0x0A # s @ [CHR 0x0A]) = TrimSpace s"
  by (simp add: TrimSpace_def TrimLeftSpace_newline TrimLeftSpace_snoc_newline
      TrimRightSpace_newline TrimRightSpace_Nil)

subsection \<open>Fences and braces\<close>

lemma TrimSpace_fence_json: "TrimSpace (fence_json s) = fence_json s"
proof -
  have "leading_space (fence_json s) = None"
    by (rule leading_space_NoneI) (simp add: fence_json_def not_space_bytes)
  moreover have "trailing_space (fence_json s) = None"
    by (rule trailing_space_NoneI) (simp add: fence_json_def not_space_bytes)
  ultimately show ?thesis by (rule TrimSpace_id)
qed

lemma stripFences_fence_json: "stripFences (fence_json s) = TrimSpace s"
proof -
  have pre: "HasPrefix (fence_json s) ''```json''"
    by (simp add: HasPrefix_def fence_json_def)
  have tp: "TrimPrefix (fence_json s) ''```json'' = CHR 0x0A # s @ ''\<newline>```''"
    using pre by (simp add: TrimPrefix_def fence_json_def)
  have suf: "HasSuffix (CHR 0x0A # s @ ''\<newline>```'') ''```''"
    by (simp add: HasSuffix_def suffix_def)
  have ts: "TrimSuffix (CHR 0x0A # s @ ''\<newline>```'') ''```'' = CHR 0x0A # s @ [CHR 0x0A]"
    using suf by (simp add: TrimSuffix_def)
  show ?thesis
    by (simp add: stripFences_def TrimSpace_fence_json pre tp ts TrimSpace_newlines Let_def)
qed

lemma takeWhile_neq_notin:
  "c \<notin> set a \<Longrightarrow> takeWhile (\<lambda>x. x \<noteq> c) (a @ m) = a @ takeWhile (\<lambda>x. x \<noteq> c) m"
  by (induction a) auto

lemma takeWhile_neq_in:
  "c \<in> set m \<Longrightarrow> takeWhile (\<lambda>x. x \<noteq> c) (m @ b) = takeWhile (\<lambda>x. x \<noteq> c) m"
  by (induction m) auto

lemma lastPos_pad:
  assumes "c \<notin> set b" "c \<in> set m"
  shows "lastPos c (a @ m @ b) = length a + lastPos c m"
proof -
  have 1: "takeWhile (\<lambda>x. x \<noteq> c) (rev b @ rev m @ rev a) = rev b @ takeWhile (\<lambda>x. x \<noteq> c) (rev m @ rev a)"
    using assms(1) by (simp add: takeWhile_neq_notin)
  have 2: "takeWhile (\<lambda>x. x \<noteq> c) (rev m @ rev a) = takeWhile (\<lambda>x. x \<noteq> c) (rev m)"
    using assms(2) by (simp add: takeWhile_neq_in)
  have "length (takeWhile (\<lambda>x. x \<noteq> c) (rev m)) < length m"
    using takeWhile_lt[of c "rev m"] assms(2) by simp
  then show ?thesis by (simp add: lastPos_def 1 2)
qed

lemma firstPos_pad:
  assumes "c \<notin> set a" "c \<in> set m"
  shows "firstPos c (a @ m @ b) = length a + firstPos c m"
  using assms by (simp add: firstPos_def takeWhile_neq_notin takeWhile_neq_in)

lemma braced_pad:
  assumes "brace_free a" "brace_free b"
  shows "braced (a @ m @ b) = braced m"
proof (cases "CHR ''{'' \<in> set m \<and> CHR ''}'' \<in> set m")
  case True
  then show ?thesis using assms
    by (simp add: braced_def brace_free_def firstPos_pad lastPos_pad)
next
  case False
  then show ?thesis using assms by (auto simp: braced_def brace_free_def)
qed

lemma extractObject_pad:
  assumes "brace_free a" "brace_free b" "braced m"
  shows "extractObject (a @ m @ b) = extractObject m"
proof -
  let ?i = "firstPos CHR ''{'' m" and ?j = "lastPos CHR ''}'' m"
  have m: "CHR ''{'' \<in> set m" "CHR ''}'' \<in> set m" "?i < ?j" using assms(3) by (auto simp: braced_def)
  have jlt: "?j < length m" using m(2) by (cases m) (auto simp: lastPos_def)
  have ilt: "?i < length m" using jlt m(3) by simp
  have fp: "firstPos CHR ''{'' (a @ m @ b) = length a + ?i"
    using assms(1) m(1) by (simp add: firstPos_pad brace_free_def)
  have lp: "lastPos CHR ''}'' (a @ m @ b) = length a + ?j"
    using assms(2) m(2) by (simp add: lastPos_pad brace_free_def)
  have "extractObject (a @ m @ b) = take (?j + 1 - ?i) (drop (length a + ?i) (a @ m @ b))"
    using braced_pad[OF assms(1,2), of m] assms(3) m(3)
    by (simp add: extractObject_cases[of "a @ m @ b"] braced_def fp lp)
  also have "\<dots> = take (?j + 1 - ?i) (drop ?i m @ b)" using ilt by simp
  also have "\<dots> = take (?j + 1 - ?i) (drop ?i m)" using jlt m(3) by simp
  also have "\<dots> = extractObject m" using m by (simp add: extractObject_cases[of m])
  finally show ?thesis .
qed

lemma space_bytes_brace_free: "set a \<subseteq> space_bytes \<Longrightarrow> brace_free a"
  using not_space_bytes by (auto simp: brace_free_def)

lemma stripFences_decomp:
  "\<exists>a b. TrimSpace s = a @ stripFences s @ b \<and> brace_free a \<and> brace_free b
      \<and> (HasPrefix (TrimSpace s) ''```'' \<or> HasSuffix (TrimSpace s) ''```'' \<longrightarrow> a @ b \<noteq> [])"
proof -
  define t where "t = TrimSpace s"
  define u1 where "u1 = (if HasPrefix t ''```json'' then TrimPrefix t ''```json''
             else if HasPrefix t ''```'' then TrimPrefix t ''```'' else t)"
  define u2 where "u2 = TrimSuffix u1 ''```''"
  have sf: "stripFences s = TrimSpace u2"
    by (simp add: stripFences_def Let_def t_def u1_def u2_def)
  have "\<exists>p. t = p @ u1 \<and> brace_free p \<and> (HasPrefix t ''```'' \<longrightarrow> p \<noteq> [])"
  proof (cases "HasPrefix t ''```json''")
    case True
    then have "t = ''```json'' @ u1"
      by (auto simp: u1_def TrimPrefix_def HasPrefix_def prefix_def)
    moreover have "brace_free ''```json''" by (simp add: brace_free_def)
    ultimately show ?thesis by blast
  next
    case nj: False
    show ?thesis
    proof (cases "HasPrefix t ''```''")
      case True
      then have "t = ''```'' @ u1"
        using nj by (auto simp: u1_def TrimPrefix_def HasPrefix_def prefix_def)
      moreover have "brace_free ''```''" by (simp add: brace_free_def)
      ultimately show ?thesis by blast
    next
      case False
      then have "t = [] @ u1" using nj by (simp add: u1_def)
      moreover have "brace_free []" by (simp add: brace_free_def)
      ultimately show ?thesis using False by blast
    qed
  qed
  then obtain p where p: "t = p @ u1" "brace_free p" "HasPrefix t ''```'' \<longrightarrow> p \<noteq> []"
    by blast
  have "\<exists>q. u1 = u2 @ q \<and> brace_free q \<and> (HasSuffix u1 ''```'' \<longrightarrow> q \<noteq> [])"
  proof (cases "HasSuffix u1 ''```''")
    case True
    then have "u1 = u2 @ ''```''"
      by (auto simp: u2_def TrimSuffix_def HasSuffix_def suffix_def)
    moreover have "brace_free ''```''" "''```'' \<noteq> []" by (simp_all add: brace_free_def)
    ultimately show ?thesis by blast
  next
    case False
    then have "u1 = u2 @ []" by (simp add: u2_def TrimSuffix_def)
    moreover have "brace_free []" by (simp add: brace_free_def)
    ultimately show ?thesis using False by blast
  qed
  then obtain q where q: "u1 = u2 @ q" "brace_free q" "HasSuffix u1 ''```'' \<longrightarrow> q \<noteq> []"
    by blast
  obtain c d where cd: "u2 = c @ TrimSpace u2 @ d" "set c \<subseteq> space_bytes" "set d \<subseteq> space_bytes"
    using TrimSpace_decomp[of u2] by blast
  have u2: "u2 = c @ stripFences s @ d" unfolding sf by (rule cd(1))
  have eq: "t = (p @ c) @ stripFences s @ (d @ q)"
    using p(1) q(1) u2 by (metis append.assoc)
  have bf: "brace_free (p @ c)" "brace_free (d @ q)"
    using p(2) q(2) space_bytes_brace_free[OF cd(2)] space_bytes_brace_free[OF cd(3)]
    by (auto simp: brace_free_def)
  have ne: "(p @ c) @ (d @ q) \<noteq> []" if "HasPrefix t ''```'' \<or> HasSuffix t ''```''"
  proof (cases "p = []")
    case True
    then have "u1 = t" using p(1) by simp
    moreover have "HasSuffix t ''```''" using that p(3) True by blast
    ultimately have "q \<noteq> []" using q(3) by simp
    then show ?thesis by simp
  next
    case False
    then show ?thesis by simp
  qed
  show ?thesis using eq bf ne unfolding t_def by blast
qed

lemma fence_roundtrip:
  assumes "braced s \<or> (\<not> HasPrefix (TrimSpace s) ''```'' \<and> \<not> HasSuffix (TrimSpace s) ''```'')"
  shows "CleanJSONResponse (fence_json s) = CleanJSONResponse s"
proof -
  obtain a b where ab: "s = a @ TrimSpace s @ b" "brace_free a" "brace_free b"
    using TrimSpace_decomp[of s] space_bytes_brace_free by blast
  obtain c d where cd: "TrimSpace s = c @ stripFences s @ d" "brace_free c" "brace_free d"
    using stripFences_decomp[of s] by blast
  have lhs: "CleanJSONResponse (fence_json s) = extractObject (TrimSpace s)"
    by (simp add: CleanJSONResponse_def stripFences_fence_json)
  have rhs: "CleanJSONResponse s = extractObject (stripFences s)"
    by (simp add: CleanJSONResponse_def)
  from assms show ?thesis
  proof
    assume "braced s"
    then have "braced (TrimSpace s)" using braced_pad[OF ab(2,3), of "TrimSpace s"] ab(1) by simp
    then have "braced (stripFences s)" using braced_pad[OF cd(2,3), of "stripFences s"] cd(1) by simp
    then have "extractObject (TrimSpace s) = extractObject (stripFences s)"
      using extractObject_pad[OF cd(2,3)] cd(1) by metis
    then show ?thesis by (simp add: lhs rhs)
  next
    assume nf: "\<not> HasPrefix (TrimSpace s) ''```'' \<and> \<not> HasSuffix (TrimSpace s) ''```''"
    then have "\<not> HasPrefix (TrimSpace s) ''```json''"
      by (auto simp: HasPrefix_def prefix_def)
    then have "stripFences s = TrimSpace s"
      using nf by (simp add: stripFences_def Let_def TrimSuffix_def TrimSpace_idem)
    then show ?thesis by (simp add: lhs rhs)
  qed
qed

section \<open>Properties of the assembler\<close>

lemma present_ValidDocumentTypes: "present ValidDocumentTypes dt \<longleftrightarrow> dt \<in> set documentTypes"
  by (auto simp: present_def ValidDocumentTypes_def documentTypes_def)

lemma present_ValidColorModes: "present ValidColorModes cm \<longleftrightarrow> cm \<in> set colorModes"
  by (auto simp: present_def ValidColorModes_def colorModes_def)

lemma buildText_lines_eq: "buildText_lines cfg ls acc = acc @ map (buildLine cfg) ls"
  by (induction ls arbitrary: acc) auto

lemma buildText_Lines:
  "tr_Lines (buildText resp cfg) =
     (case vr_Text resp of None \<Rightarrow> [] | Some t \<Rightarrow> map (buildLine cfg) (ot_Lines t))"
  by (simp add: buildText_def buildText_lines_eq split: option.splits)

lemma buildOCRResult_Text: "r_Text (buildOCRResult s ty ck info res cfg) = buildText (pr_VisionResponse res) cfg"
  by (simp add: buildOCRResult_def Let_def split: option.splits)

lemma buildOCRResult_Metadata:
  "r_Metadata (buildOCRResult s ty ck info res cfg) = buildMetadata (pr_VisionResponse res)"
  by (simp add: buildOCRResult_def Let_def split: option.splits)

lemma buildOCRResult_StructuredData:
  "r_StructuredData (buildOCRResult s ty ck info res cfg) = buildStructuredData (pr_VisionResponse res) cfg"
  by (simp add: buildOCRResult_def Let_def split: option.splits)

lemma buildOCRResult_Summary:
  "r_Summary (buildOCRResult s ty ck info res cfg) = buildSummary (pr_VisionResponse res) cfg"
  by (simp add: buildOCRResult_def Let_def split: option.splits)

lemma buildOCRResult_ColorMode:
  "ii_ColorMode (r_Image (buildOCRResult s ty ck info res cfg)) =
     (case vr_Image (pr_VisionResponse res) of
        None \<Rightarrow> ii_ColorMode info
      | Some vi \<Rightarrow> if oi_ColorMode vi \<noteq> [] \<and> oi_ColorMode vi \<in> set colorModes
                   then oi_ColorMode vi else ii_ColorMode info)"
  by (simp add: buildOCRResult_def Let_def present_ValidColorModes split: option.splits)

lemma buildMetadata_ConfidenceScore:
  "md_ConfidenceScore (buildMetadata resp) =
     (case vr_Metadata resp of None \<Rightarrow> 0 | Some m \<Rightarrow> om_ConfidenceScore m)"
  by (simp add: buildMetadata_def Let_def split: option.splits)

lemma buildMetadata_Language:
  "md_Language (buildMetadata resp) =
     (case vr_Metadata resp of None \<Rightarrow> None | Some m \<Rightarrow> om_Language m)"
  by (simp add: buildMetadata_def Let_def split: option.splits)

lemma buildMetadata_DocumentType:
  "md_DocumentType (buildMetadata resp) =
     (case vr_Metadata resp of
        None \<Rightarrow> DocumentTypeUnknown
      | Some m \<Rightarrow> if om_DocumentType m \<in> set documentTypes then om_DocumentType m
                  else DocumentTypeUnknown)"
  by (simp add: buildMetadata_def Let_def present_ValidDocumentTypes split: option.splits)

lemma buildLine_Confidence:
  "tl_Confidence (buildLine cfg l) = (if cfg_WithConfidenceScores cfg then ol_Confidence l else 0)"
  by (simp add: buildLine_def Let_def)

lemma buildLine_BoundingBox:
  "tl_BoundingBox (buildLine cfg l) = (if cfg_WithBoundingBoxes cfg then ol_BoundingBox l else None)"
  by (simp add: buildLine_def Let_def)

lemma validateLines_None:
  "validateLines i ls = None \<Longrightarrow> list_all (\<lambda>l. 0 \<le> tl_Confidence l \<and> tl_Confidence l \<le> 1) ls"
  by (induction ls arbitrary: i) (auto split: if_splits)

lemma ValidateOCRResult_None:
  "ValidateOCRResult (Some r) = None \<Longrightarrow> confidences_in_range r"
  by (auto simp: ValidateOCRResult_def confidences_in_range_def validateLines_None
      split: if_splits option.splits)

lemma GetImageInfo_ColorMode: "ii_ColorMode (GetImageInfo decoded ext) \<in> set colorModes"
  by (simp add: GetImageInfo_def colorModes_def Let_def split: sum.splits option.splits ColorModel.splits)

text \<open>
  The four flags that the assembler applies: summary, per-line confidence, bounding
  boxes and structured extraction.
\<close>

lemma flags_masked:
  "let r = buildOCRResult s ty ck info res cfg in
     (\<not> cfg_WithSummary cfg \<longrightarrow> r_Summary r = None) \<and>
     (\<not> cfg_WithConfidenceScores cfg \<longrightarrow> list_all (\<lambda>l. tl_Confidence l = 0) (tr_Lines (r_Text r))) \<and>
     (\<not> cfg_WithBoundingBoxes cfg \<longrightarrow> list_all (\<lambda>l. tl_BoundingBox l = None) (tr_Lines (r_Text r))) \<and>
     (\<not> cfg_WithStructuredExtraction cfg \<longrightarrow>
        r_StructuredData r = \<lparr>sd_KeyValuePairs = Some Map.empty, sd_Tables = Some []\<rparr>)"
  by (auto simp: buildOCRResult_Summary buildOCRResult_Text buildOCRResult_StructuredData
      buildSummary_def buildText_Lines buildStructuredData_def list_all_iff
      buildLine_Confidence buildLine_BoundingBox split: option.splits)

section \<open>Properties of the engine\<close>

lemma Process_attempts_0:
  "Process_attempts w req 0 lastErr sent =
     (case w_Generate w (length sent) req of
        Inl err \<Rightarrow> (Inl (OllamaGenerate 0 (External err)), sent @ [req])
      | Inr resp \<Rightarrow>
          (case ParseAndValidateJSON w (gr_Response resp) of
             Inl err \<Rightarrow> Process_attempts w req 1 (Some (ParseResponse 0 err)) (sent @ [req])
           | Inr visionResp \<Rightarrow>
               (Inr \<lparr>pr_VisionResponse = visionResp, pr_Model = gr_Model resp,
                     pr_PromptTokens = gr_PromptEvalCount resp, pr_EvalTokens = gr_EvalCount resp,
                     pr_Latency = w_Since w (Suc (length sent))\<rparr>,
                sent @ [req])))"
  by (subst Process_attempts.simps) (auto split: sum.splits)

lemma Process_attempts_2:
  "Process_attempts w req (Suc (Suc 0)) lastErr sent = (Inl (AllAttemptsFailed lastErr), sent)"
  by (subst Process_attempts.simps) simp

lemma Process_attempts_1:
  "Process_attempts w req (Suc 0) lastErr sent =
     (case w_Generate w (length sent) req of
        Inl err \<Rightarrow> (Inl (OllamaGenerate 1 (External err)), sent @ [req])
      | Inr resp \<Rightarrow>
          (case ParseAndValidateJSON w (gr_Response resp) of
             Inl err \<Rightarrow> (Inl (AllAttemptsFailed (Some (ParseResponse 1 err))), sent @ [req])
           | Inr visionResp \<Rightarrow>
               (Inr \<lparr>pr_VisionResponse = visionResp, pr_Model = gr_Model resp,
                     pr_PromptTokens = gr_PromptEvalCount resp, pr_EvalTokens = gr_EvalCount resp,
                     pr_Latency = w_Since w (Suc (length sent))\<rparr>,
                sent @ [req])))"
  by (subst Process_attempts.simps) (auto split: sum.splits simp: Process_attempts_2)

lemma parse_not_json:
  "ParseAndValidateJSON (scripted_world rs) ''not json'' = Inl (JSONUnmarshal (External ''invalid character''))"
proof -
  have "CleanJSONResponse ''not json'' = ''not json''" by code_simp
  then show ?thesis by (simp add: ParseAndValidateJSON_def scripted_world_def)
qed

lemma elems_append_slice: "elems (append_slice a b) = elems a @ elems b"
  by (simp add: append_slice_def elems_def split: option.splits)

lemma mergeStep_Lines: "ms_Lines (mergeStep i r st) = ms_Lines st @ pageLines r"
  by (simp add: mergeStep_def pageLines_def Let_def split: option.splits)

lemma mergeStep_Tables: "elems (ms_Tables (mergeStep i r st)) = elems (ms_Tables st) @ pageTables r"
  by (simp add: mergeStep_def pageTables_def Let_def elems_append_slice split: option.splits)

lemma mergeStep_KeyValuePairs:
  "ms_KeyValuePairs (mergeStep i r st) = ms_KeyValuePairs st ++ pageKeyValues r"
  by (simp add: mergeStep_def pageKeyValues_def Let_def split: option.splits)

lemma mergeStep_Summary:
  "ms_Summary (mergeStep i r st) =
     (case vr_Summary (pr_VisionResponse r) of None \<Rightarrow> ms_Summary st | Some s \<Rightarrow> Some s)"
  by (simp add: mergeStep_def Let_def split: option.splits)

lemma mergeLoop_Lines:
  "ms_Lines (mergeLoop i rs st) = ms_Lines st @ concat (map pageLines rs)"
  by (induction rs arbitrary: i st) (simp_all add: mergeStep_Lines)

lemma mergeLoop_Tables:
  "elems (ms_Tables (mergeLoop i rs st)) = elems (ms_Tables st) @ concat (map pageTables rs)"
  by (induction rs arbitrary: i st) (simp_all add: mergeStep_Tables)

lemma mergeLoop_KeyValuePairs:
  "ms_KeyValuePairs (mergeLoop i rs st) k =
     (case lastValue k rs of None \<Rightarrow> ms_KeyValuePairs st k | Some v \<Rightarrow> Some v)"
proof (induction rs arbitrary: i st)
  case Nil
  then show ?case by (simp add: lastValue_def)
next
  case (Cons r rs)
  show ?case
  proof (cases "filter (\<lambda>r. pageKeyValues r k \<noteq> None) rs")
    case Nil
    then have "lastValue k rs = None" "lastValue k (r # rs) = pageKeyValues r k"
      by (auto simp: lastValue_def)
    then show ?thesis
      by (simp add: Cons.IH mergeStep_KeyValuePairs map_add_def split: option.splits)
  next
    case (Cons p ps)
    then have "lastValue k (r # rs) = lastValue k rs" "lastValue k rs \<noteq> None"
      using last_in_set[of "p # ps"] filter_set[of "\<lambda>r. pageKeyValues r k \<noteq> None" rs]
      by (auto simp: lastValue_def)
    then show ?thesis by (auto simp: Cons.IH)
  qed
qed

lemma mergeLoop_Summary:
  "ms_Summary (mergeLoop i rs st) =
     (case lastSummary rs of None \<Rightarrow> ms_Summary st | Some s \<Rightarrow> Some s)"
proof (induction rs arbitrary: i st)
  case Nil
  then show ?case by (simp add: lastSummary_def)
next
  case (Cons r rs)
  show ?case
  proof (cases "filter (\<lambda>r. vr_Summary (pr_VisionResponse r) \<noteq> None) rs")
    case Nil
    then have "lastSummary rs = None" "lastSummary (r # rs) = vr_Summary (pr_VisionResponse r)"
      by (auto simp: lastSummary_def)
    then show ?thesis
      by (simp add: Cons.IH mergeStep_Summary split: option.splits)
  next
    case (Cons p ps)
    then have "lastSummary (r # rs) = lastSummary rs" "lastSummary rs \<noteq> None"
      using last_in_set[of "p # ps"] filter_set[of "\<lambda>r. vr_Summary (pr_VisionResponse r) \<noteq> None" rs]
      by (auto simp: lastSummary_def)
    then show ?thesis by (auto simp: Cons.IH)
  qed
qed

section \<open>Properties of the prompt\<close>

lemma names_in_concat: "seg \<in> set segs \<Longrightarrow> names_in seg fs \<Longrightarrow> names_in (concat segs) fs"
  by (auto simp: names_in_def list_all_iff Contains_concat)

lemma names_in_append: "names_in p (fs @ gs) \<longleftrightarrow> names_in p fs \<and> names_in p gs"
  by (simp add: names_in_def)

lemma head_names:
  "Contains prompt_head (quoted ''metadata'')"
  "Contains prompt_head (quoted ''language'')"
  by code_simp+

lemma schema_names:
  "Contains prompt_schema (quoted ''document_type'')"
  "Contains prompt_schema (quoted ''confidence_score'')"
  "Contains prompt_schema (quoted ''text'')"
  "Contains prompt_schema (quoted ''raw'')"
  "Contains prompt_schema (quoted ''lines'')"
  by code_simp+

lemma bbox_names:
  "Contains prompt_bbox_on (quoted ''bounding_box'')"
  "Contains prompt_bbox_off (quoted ''bounding_box'')"
  by code_simp+

lemma box_names:
  "Contains prompt_bbox_on (quoted ''x'')"
  "Contains prompt_bbox_on (quoted ''y'')"
  "Contains prompt_bbox_on (quoted ''width'')"
  "Contains prompt_bbox_on (quoted ''height'')"
  by code_simp+

lemma confidence_names:
  "Contains prompt_confidence_on (quoted ''confidence'')"
  "Contains prompt_confidence_off (quoted ''confidence'')"
  by code_simp+

lemma structured_names:
  "Contains prompt_structured_on (quoted ''structured_data'')"
  "Contains prompt_structured_on (quoted ''key_value_pairs'')"
  "Contains prompt_structured_on (quoted ''tables'')"
  "Contains prompt_structured_off (quoted ''structured_data'')"
  "Contains prompt_structured_off (quoted ''key_value_pairs'')"
  "Contains prompt_structured_off (quoted ''tables'')"
  by code_simp+

lemma table_names:
  "Contains prompt_structured_on (quoted ''headers'')"
  "Contains prompt_structured_on (quoted ''rows'')"
  by code_simp+

lemma summary_names:
  "Contains prompt_summary_on (quoted ''summary'')"
  "Contains prompt_summary_off (quoted ''summary'')"
  by code_simp+

lemma head_braces: "CHR ''{'' \<in> set prompt_head" "CHR ''}'' \<in> set prompt_head"
  by code_simp+

lemma BuildOCRPrompt_parts: "BuildOCRPrompt cfg = concat (prompt_parts cfg)"
  by (simp add: BuildOCRPrompt_def prompt_parts_def)

section \<open>Claims\<close>

text \<open>
  C1. A disabled feature flag forces its field of the result to the null or zero value:
  summary, per-line confidence, bounding boxes and structured data are forced
  (\<open>flags_masked\<close>), but the language is not. \<open>buildMetadata\<close> does not receive the
  configuration; with language detection disabled and a reply whose metadata gives the
  language \<open>en\<close>, the language of the result is \<open>en\<close>, not null.
\<close>

theorem language_not_masked:
  "\<not> cfg_WithLanguageDetection (DefaultConfig\<lparr>cfg_WithLanguageDetection := False\<rparr>) \<and>
   md_Language (r_Metadata (buildOCRResult ''/doc.png'' SourceTypeFile ''abc123'' png_info
       (page_of language_reply) (DefaultConfig\<lparr>cfg_WithLanguageDetection := False\<rparr>))) = Some ''en''"
  by (simp add: buildOCRResult_Metadata buildMetadata_Language page_of_def language_reply_def)

text \<open>
  C2. The confidence values of the returned result are those of the reply: the document
  score is the reply's score (0 when the reply has no metadata), and the confidence of
  each line is the reply's confidence of that line when the confidence flag is on, and 0
  when it is off. So the document score and every line confidence of the returned result
  lie in \<open>[0,1]\<close> exactly when the reply's document score does and, unless the confidence
  flag is off, the reply's line confidences do. Validation does not change the result: it
  gives a warning, and with no warning the confidences lie in \<open>[0,1]\<close>.
\<close>

theorem confidence_range_exact:
  "(let r = fst (Extract_result source ty ck info result cfg);
        warning = snd (Extract_result source ty ck info result cfg);
        resp = pr_VisionResponse result
    in md_ConfidenceScore (r_Metadata r) =
         (case vr_Metadata resp of None \<Rightarrow> 0 | Some m \<Rightarrow> om_ConfidenceScore m) \<and>
       map tl_Confidence (tr_Lines (r_Text r)) =
         (case vr_Text resp of
            None \<Rightarrow> []
          | Some t \<Rightarrow>
              map (\<lambda>l. if cfg_WithConfidenceScores cfg then ol_Confidence l else 0) (ot_Lines t)) \<and>
       (confidences_in_range r \<longleftrightarrow>
          reply_score_in_range resp \<and>
          (\<not> cfg_WithConfidenceScores cfg \<or> reply_lines_in_range resp)) \<and>
       (warning = None \<longrightarrow> confidences_in_range r))"
proof -
  let ?r = "fst (Extract_result source ty ck info result cfg)"
  let ?resp = "pr_VisionResponse result"
  have r: "?r = buildOCRResult source ty ck info result cfg"
    by (simp add: Extract_result_def Let_def)
  have score: "md_ConfidenceScore (r_Metadata ?r) =
         (case vr_Metadata ?resp of None \<Rightarrow> 0 | Some m \<Rightarrow> om_ConfidenceScore m)"
    by (simp add: r buildOCRResult_Metadata buildMetadata_ConfidenceScore)
  have lines: "map tl_Confidence (tr_Lines (r_Text ?r)) =
         (case vr_Text ?resp of
            None \<Rightarrow> []
          | Some t \<Rightarrow>
              map (\<lambda>l. if cfg_WithConfidenceScores cfg then ol_Confidence l else 0) (ot_Lines t))"
    by (simp add: r buildOCRResult_Text buildText_Lines buildLine_Confidence split: option.splits)
  have rng: "confidences_in_range ?r \<longleftrightarrow>
          reply_score_in_range ?resp \<and>
          (\<not> cfg_WithConfidenceScores cfg \<or> reply_lines_in_range ?resp)"
    by (auto simp: r confidences_in_range_def reply_score_in_range_def reply_lines_in_range_def
        buildOCRResult_Metadata buildOCRResult_Text buildMetadata_ConfidenceScore buildText_Lines
        list_all_iff buildLine_Confidence split: option.splits)
  have val: "snd (Extract_result source ty ck info result cfg) = None \<longrightarrow> confidences_in_range ?r"
    by (simp add: Extract_result_def Let_def ValidateOCRResult_None)
  show ?thesis unfolding Let_def using score lines rng val by blast
qed

theorem confidence_range_exact_witness:
  "reply_score_in_range (pr_VisionResponse (page_of plain_reply)) \<and>
   reply_lines_in_range (pr_VisionResponse (page_of plain_reply)) \<and>
   snd (Extract_result ''/doc.png'' SourceTypeFile ''abc123'' png_info (page_of plain_reply) DefaultConfig) = None \<and>
   confidences_in_range
     (fst (Extract_result ''/doc.png'' SourceTypeFile ''abc123'' png_info (page_of plain_reply) DefaultConfig)) \<and>
   \<not> cfg_WithConfidenceScores (DefaultConfig\<lparr>cfg_WithConfidenceScores := False\<rparr>) \<and>
   \<not> reply_lines_in_range (pr_VisionResponse (page_of overconfident_lines_reply)) \<and>
   reply_score_in_range (pr_VisionResponse (page_of overconfident_lines_reply)) \<and>
   confidences_in_range
     (fst (Extract_result ''/doc.png'' SourceTypeFile ''abc123'' png_info
             (page_of overconfident_lines_reply) (DefaultConfig\<lparr>cfg_WithConfidenceScores := False\<rparr>)))"
proof -
  have h1: "reply_score_in_range (pr_VisionResponse (page_of plain_reply))"
      "reply_lines_in_range (pr_VisionResponse (page_of plain_reply))"
    by (simp_all add: reply_score_in_range_def reply_lines_in_range_def page_of_def plain_reply_def)
  have h2: "snd (Extract_result ''/doc.png'' SourceTypeFile ''abc123'' png_info
                  (page_of plain_reply) DefaultConfig) = None"
    by (simp add: Extract_result_def Let_def ValidateOCRResult_def buildOCRResult_def
        buildMetadata_def buildText_def buildLine_def buildStructuredData_def buildSummary_def
        page_of_def plain_reply_def png_info_def DefaultConfig_def lookup_def present_def
        ValidDocumentTypes_def ValidColorModes_def SourceTypeFile_def SourceTypeURL_def
        ColorModeRGB_def ColorModeGrayscale_def ColorModeCMYK_def ColorModeUnknown_def
        DocumentTypeInvoice_def DocumentTypeReceipt_def DocumentTypeIDCard_def
        DocumentTypeContract_def DocumentTypeUnknown_def)
  have h3: "\<not> cfg_WithConfidenceScores (DefaultConfig\<lparr>cfg_WithConfidenceScores := False\<rparr>)"
    by simp
  have h4: "\<not> reply_lines_in_range (pr_VisionResponse (page_of overconfident_lines_reply))"
      "reply_score_in_range (pr_VisionResponse (page_of overconfident_lines_reply))"
    by (simp_all add: reply_score_in_range_def reply_lines_in_range_def page_of_def
        overconfident_lines_reply_def)
  have a: "confidences_in_range
     (fst (Extract_result ''/doc.png'' SourceTypeFile ''abc123'' png_info (page_of plain_reply) DefaultConfig))"
    using h1 h2
      confidence_range_exact [of "''/doc.png''" SourceTypeFile "''abc123''" png_info
        "page_of plain_reply" DefaultConfig]
    by (simp add: Let_def)
  have b: "confidences_in_range
     (fst (Extract_result ''/doc.png'' SourceTypeFile ''abc123'' png_info
             (page_of overconfident_lines_reply) (DefaultConfig\<lparr>cfg_WithConfidenceScores := False\<rparr>)))"
    using h3 h4
      confidence_range_exact [of "''/doc.png''" SourceTypeFile "''abc123''" png_info
        "page_of overconfident_lines_reply" "DefaultConfig\<lparr>cfg_WithConfidenceScores := False\<rparr>"]
    by (simp add: Let_def)
  show ?thesis using h1 h2 h3 h4 a b by simp
qed

text \<open>
  The range does not hold for every reply: for a reply whose document score is \<open>3/2\<close>
  the returned result has the document score \<open>3/2\<close>.
\<close>

theorem confidence_range_counterexample:
  "\<not> confidences_in_range
       (fst (Extract_result ''/doc.png'' SourceTypeFile ''abc123'' png_info
               (page_of overconfident_reply) DefaultConfig))"
  by (simp add: Extract_result_def confidences_in_range_def buildOCRResult_Metadata
      buildMetadata_ConfidenceScore page_of_def overconfident_reply_def Let_def)

text \<open>
  C3. \<open>Process\<close> on one image, with \<open>req\<close> the request it builds and \<open>n\<close> requests sent
  before. If the reply to the first request does not parse, the requests sent are
  exactly two, both \<open>req\<close>; if then the second reply does not parse either, the result is
  the all-attempts-failed error wrapping the parse error of the second attempt; if the
  second request fails in transport, the result is that failure. If the first request
  fails in transport, the result is that failure and only one request was sent.
\<close>

theorem retry_once_on_parse_failure:
  "(let req = Process_request w imageData cfg; n = length sent;
        out = Process w sent imageData cfg
    in (\<forall>resp0 e0.
          w_Generate w n req = Inr resp0 \<and> ParseAndValidateJSON w (gr_Response resp0) = Inl e0 \<longrightarrow>
            snd out = sent @ [req, req] \<and>
            (\<forall>resp1 e1.
               w_Generate w (n + 1) req = Inr resp1 \<and>
               ParseAndValidateJSON w (gr_Response resp1) = Inl e1 \<longrightarrow>
                 fst out = Inl (AllAttemptsFailed (Some (ParseResponse 1 e1)))) \<and>
            (\<forall>err. w_Generate w (n + 1) req = Inl err \<longrightarrow>
                 fst out = Inl (OllamaGenerate 1 (External err)))) \<and>
       (\<forall>err. w_Generate w n req = Inl err \<longrightarrow>
          out = (Inl (OllamaGenerate 0 (External err)), sent @ [req])))"
  by (auto simp: Let_def Process_def Process_attempts_0 Process_attempts_1 split: sum.splits)

theorem retry_once_on_parse_failure_witness:
  "(let w = scripted_world [Inr (reply_with ''not json''), Inr (reply_with ''not json'')];
        req = Process_request w ''img'' some_config
    in w_Generate w 0 req = Inr (reply_with ''not json'') \<and>
       w_Generate w 1 req = Inr (reply_with ''not json'') \<and>
       ParseAndValidateJSON w ''not json'' = Inl (JSONUnmarshal (External ''invalid character'')) \<and>
       Process w [] ''img'' some_config =
         (Inl (AllAttemptsFailed (Some (ParseResponse 1 (JSONUnmarshal (External ''invalid character''))))),
          [req, req])) \<and>
   (let w = scripted_world [Inr (reply_with ''not json''), Inl ''connection reset''];
        req = Process_request w ''img'' some_config
    in w_Generate w 1 req = Inl ''connection reset'' \<and>
       Process w [] ''img'' some_config =
         (Inl (OllamaGenerate 1 (External ''connection reset'')), [req, req])) \<and>
   (let w = scripted_world [Inl ''connection refused''];
        req = Process_request w ''img'' some_config
    in w_Generate w 0 req = Inl ''connection refused'' \<and>
       Process w [] ''img'' some_config =
         (Inl (OllamaGenerate 0 (External ''connection refused'')), [req]))"
proof -
  let ?w1 = "scripted_world [Inr (reply_with ''not json''), Inr (reply_with ''not json'')]"
  let ?w2 = "scripted_world [Inr (reply_with ''not json''), Inl ''connection reset'']"
  let ?w3 = "scripted_world [Inl ''connection refused'']"
  have g1: "w_Generate ?w1 0 r = Inr (reply_with ''not json'')"
      "w_Generate ?w1 1 r = Inr (reply_with ''not json'')" for r
    by (simp_all add: scripted_world_def)
  have g2: "w_Generate ?w2 0 r = Inr (reply_with ''not json'')"
      "w_Generate ?w2 1 r = Inl ''connection reset''" for r
    by (simp_all add: scripted_world_def)
  have g3: "w_Generate ?w3 0 r = Inl ''connection refused''" for r
    by (simp add: scripted_world_def)
  have r: "gr_Response (reply_with ''not json'') = ''not json''" by (simp add: reply_with_def)
  have a: "Process ?w1 [] ''img'' some_config =
         (Inl (AllAttemptsFailed (Some (ParseResponse 1 (JSONUnmarshal (External ''invalid character''))))),
          [Process_request ?w1 ''img'' some_config, Process_request ?w1 ''img'' some_config])"
    using retry_once_on_parse_failure [of ?w1 "''img''" some_config "[]"] g1 parse_not_json r
    by (simp add: Let_def prod_eq_iff)
  have b: "Process ?w2 [] ''img'' some_config =
         (Inl (OllamaGenerate 1 (External ''connection reset'')),
          [Process_request ?w2 ''img'' some_config, Process_request ?w2 ''img'' some_config])"
    using retry_once_on_parse_failure [of ?w2 "''img''" some_config "[]"] g2 parse_not_json r
    by (simp add: Let_def prod_eq_iff)
  have c: "Process ?w3 [] ''img'' some_config =
         (Inl (OllamaGenerate 0 (External ''connection refused'')),
          [Process_request ?w3 ''img'' some_config])"
    using retry_once_on_parse_failure [of ?w3 "''img''" some_config "[]"] g3
    by (simp add: Let_def)
  show ?thesis
    unfolding Let_def using a b c g1 g2 g3 parse_not_json by simp
qed

text \<open>
  C4. Merging two or more page results: the metadata of the merged response (language,
  document type, confidence score) is the metadata of the first page, and its summary is
  the summary of the last page whose summary is not nil, nil if there is none.
\<close>

theorem merge_metadata_summary:
  "\<exists>m. mergeResults (r0 # r1 # rs) = Some m \<and>
       vr_Metadata (pr_VisionResponse m) = vr_Metadata (pr_VisionResponse r0) \<and>
       vr_Summary (pr_VisionResponse m) = lastSummary (r0 # r1 # rs)"
  by (simp add: Let_def mergeLoop_Summary del: mergeLoop.simps split: option.splits)

text \<open>
  C5. Merging any list of page results gives no result exactly for the empty list.
  Otherwise, in the merged result every key has the value of the last page that has the
  key (and no value if no page has it), the text lines are the lines of the pages
  concatenated in page order, and the tables are the tables of the pages concatenated in
  page order.
\<close>

theorem merge_union_concat:
  "(case mergeResults results of
      None \<Rightarrow> results = []
    | Some m \<Rightarrow>
        results \<noteq> [] \<and>
        (\<forall>k. pageKeyValues m k = lastValue k results) \<and>
        pageLines m = concat (map pageLines results) \<and>
        pageTables m = concat (map pageTables results))"
proof (cases results rule: mergeResults.cases)
  case 1
  then show ?thesis by simp
next
  case (2 r)
  then show ?thesis by (simp add: lastValue_def)
next
  case (3 r0 r1 rs)
  let ?st = "mergeLoop 0 (r0 # r1 # rs)
                 \<lparr>ms_Lines = [], ms_KeyValuePairs = Map.empty, ms_Tables = None,
                  ms_Summary = None, ms_PromptTokens = 0, ms_EvalTokens = 0,
                  ms_rawParts = [], ms_totalLatency = 0\<rparr>"
  have kv: "ms_KeyValuePairs ?st k = lastValue k results" for k
    unfolding 3 mergeLoop_KeyValuePairs by (simp split: option.splits)
  have ln: "ms_Lines ?st = concat (map pageLines results)"
    unfolding 3 mergeLoop_Lines by simp
  have tb: "elems (ms_Tables ?st) = concat (map pageTables results)"
    unfolding 3 mergeLoop_Tables by (simp add: elems_def)
  show ?thesis
    using kv ln tb unfolding 3
    by (simp add: Let_def pageKeyValues_def pageLines_def pageTables_def entries_def
        del: mergeLoop.simps)
qed

text \<open>
  C6. Merging a list of one page result returns that result itself, so with all its
  fields; and \<open>ProcessPDF\<close> on a document of one page is \<open>Process\<close> on that page, with no
  merge.
\<close>

theorem merge_single_identity:
  "mergeResults [r] = Some r \<and>
   ProcessPDF w sent (Inr [page]) cfg =
     (case Process w sent page cfg of
        (Inl err, sent') \<Rightarrow> (Inl err, sent')
      | (Inr result, sent') \<Rightarrow> (Inr (Some result), sent'))"
  by (simp add: ProcessPDF_def)

text \<open>
  C7. The result assembled from any reply, with the image data measured by
  \<open>GetImageInfo\<close>: the key-value map and the table slice are not nil; the document type
  is one of the five enumerated values, and is \<open>unknown\<close> when the reply has no metadata or
  an unrecognized document type; the colour mode is one of the four enumerated values,
  and is the measured one when the reply has no image section or an unrecognized colour
  mode.
\<close>

theorem assembled_invariants:
  "(let r = buildOCRResult source ty ck (GetImageInfo decoded ext) result cfg;
        resp = pr_VisionResponse result
    in sd_KeyValuePairs (r_StructuredData r) \<noteq> None \<and>
       sd_Tables (r_StructuredData r) \<noteq> None \<and>
       md_DocumentType (r_Metadata r) \<in> set documentTypes \<and>
       ((case vr_Metadata resp of None \<Rightarrow> True | Some m \<Rightarrow> om_DocumentType m \<notin> set documentTypes)
          \<longrightarrow> md_DocumentType (r_Metadata r) = DocumentTypeUnknown) \<and>
       ii_ColorMode (r_Image r) \<in> set colorModes \<and>
       ((case vr_Image resp of None \<Rightarrow> True | Some vi \<Rightarrow> oi_ColorMode vi \<notin> set colorModes)
          \<longrightarrow> ii_ColorMode (r_Image r) = ii_ColorMode (GetImageInfo decoded ext)))"
proof -
  let ?r = "buildOCRResult source ty ck (GetImageInfo decoded ext) result cfg"
  let ?resp = "pr_VisionResponse result"
  have kv: "sd_KeyValuePairs (r_StructuredData ?r) \<noteq> None"
    by (auto simp: buildOCRResult_StructuredData buildStructuredData_def Let_def
        split: option.splits)
  have tb: "sd_Tables (r_StructuredData ?r) \<noteq> None"
    by (auto simp: buildOCRResult_StructuredData buildStructuredData_def Let_def
        split: option.splits)
  have dt: "md_DocumentType (r_Metadata ?r) \<in> set documentTypes"
    by (simp add: buildOCRResult_Metadata buildMetadata_DocumentType documentTypes_def
        split: option.splits)
  have du: "(case vr_Metadata ?resp of None \<Rightarrow> True | Some m \<Rightarrow> om_DocumentType m \<notin> set documentTypes)
              \<longrightarrow> md_DocumentType (r_Metadata ?r) = DocumentTypeUnknown"
    by (simp add: buildOCRResult_Metadata buildMetadata_DocumentType split: option.splits)
  have cm: "ii_ColorMode (r_Image ?r) \<in> set colorModes"
    using GetImageInfo_ColorMode[of decoded ext]
    by (simp add: buildOCRResult_ColorMode split: option.splits)
  have cu: "(case vr_Image ?resp of None \<Rightarrow> True | Some vi \<Rightarrow> oi_ColorMode vi \<notin> set colorModes)
              \<longrightarrow> ii_ColorMode (r_Image ?r) = ii_ColorMode (GetImageInfo decoded ext)"
    by (simp add: buildOCRResult_ColorMode split: option.splits)
  show ?thesis unfolding Let_def using kv tb dt du cm cu by blast
qed

theorem assembled_invariants_witness:
  "(case vr_Metadata (pr_VisionResponse (page_of odd_reply)) of
      None \<Rightarrow> True | Some m \<Rightarrow> om_DocumentType m \<notin> set documentTypes) \<and>
   (case vr_Image (pr_VisionResponse (page_of odd_reply)) of
      None \<Rightarrow> True | Some vi \<Rightarrow> oi_ColorMode vi \<notin> set colorModes) \<and>
   md_DocumentType (r_Metadata (buildOCRResult ''/doc.jpg'' SourceTypeFile ''abc123''
       (GetImageInfo jpeg_decoded ''.jpg'') (page_of odd_reply) DefaultConfig)) = DocumentTypeUnknown \<and>
   ii_ColorMode (r_Image (buildOCRResult ''/doc.jpg'' SourceTypeFile ''abc123''
       (GetImageInfo jpeg_decoded ''.jpg'') (page_of odd_reply) DefaultConfig)) = ColorModeRGB"
proof -
  have h1: "(case vr_Metadata (pr_VisionResponse (page_of odd_reply)) of
      None \<Rightarrow> True | Some m \<Rightarrow> om_DocumentType m \<notin> set documentTypes)"
    by (simp add: page_of_def odd_reply_def documentTypes_def DocumentTypeInvoice_def
        DocumentTypeReceipt_def DocumentTypeIDCard_def DocumentTypeContract_def
        DocumentTypeUnknown_def)
  have h2: "(case vr_Image (pr_VisionResponse (page_of odd_reply)) of
      None \<Rightarrow> True | Some vi \<Rightarrow> oi_ColorMode vi \<notin> set colorModes)"
    by (simp add: page_of_def odd_reply_def colorModes_def ColorModeRGB_def
        ColorModeGrayscale_def ColorModeCMYK_def ColorModeUnknown_def)
  have ext: "ToLower ''.jpg'' \<noteq> ''.pdf''" by code_simp
  have g: "ii_ColorMode (GetImageInfo jpeg_decoded ''.jpg'') = ColorModeRGB"
    using ext by (simp add: GetImageInfo_def jpeg_decoded_def)
  show ?thesis
    using h1 h2 g
      assembled_invariants [of "''/doc.jpg''" SourceTypeFile "''abc123''" jpeg_decoded "''.jpg''"
        "page_of odd_reply" DefaultConfig]
    by (simp add: Let_def)
qed

text \<open>
  C8. Cleaning a reply wrapped in a markdown JSON fence gives the same string as
  cleaning the reply itself. This fails for a reply that has a fence of its own and no
  object candidate: the reply \<open>```\<close> cleans to the empty string, and wrapped in a fence it
  cleans to \<open>```\<close>. What holds: the two results are equal exactly when the reply has an
  object candidate (a \<open>{\<close> strictly before a \<open>}\<close>) or, once trimmed, neither starts nor
  ends with \<open>```\<close>.
\<close>

theorem fence_roundtrip_iff:
  "CleanJSONResponse (fence_json s) = CleanJSONResponse s \<longleftrightarrow>
     braced s \<or> (\<not> HasPrefix (TrimSpace s) ''```'' \<and> \<not> HasSuffix (TrimSpace s) ''```'')"
proof
  assume "braced s \<or> (\<not> HasPrefix (TrimSpace s) ''```'' \<and> \<not> HasSuffix (TrimSpace s) ''```'')"
  then show "CleanJSONResponse (fence_json s) = CleanJSONResponse s" by (rule fence_roundtrip)
next
  assume eq: "CleanJSONResponse (fence_json s) = CleanJSONResponse s"
  show "braced s \<or> (\<not> HasPrefix (TrimSpace s) ''```'' \<and> \<not> HasSuffix (TrimSpace s) ''```'')"
  proof (rule ccontr)
    assume neg: "\<not> ?thesis"
    then have nb: "\<not> braced s"
      and f: "HasPrefix (TrimSpace s) ''```'' \<or> HasSuffix (TrimSpace s) ''```''" by auto
    obtain a b where ab: "s = a @ TrimSpace s @ b" "brace_free a" "brace_free b"
      using TrimSpace_decomp[of s] space_bytes_brace_free by blast
    obtain c d where cd: "TrimSpace s = c @ stripFences s @ d" "brace_free c" "brace_free d"
      "c @ d \<noteq> []"
      using stripFences_decomp[of s] f by blast
    have nbt: "\<not> braced (TrimSpace s)"
      using braced_pad[OF ab(2,3), of "TrimSpace s"] ab(1) nb by simp
    then have nbs: "\<not> braced (stripFences s)"
      using braced_pad[OF cd(2,3), of "stripFences s"] cd(1) by simp
    have "CleanJSONResponse (fence_json s) = TrimSpace s"
      using nbt by (simp add: CleanJSONResponse_def stripFences_fence_json extractObject_unbraced)
    moreover have "CleanJSONResponse s = stripFences s"
      using nbs by (simp add: CleanJSONResponse_def extractObject_unbraced)
    ultimately have "TrimSpace s = stripFences s" using eq by simp
    then have "length (c @ stripFences s @ d) = length (stripFences s)" using cd(1) by simp
    then show False using cd(4) by simp
  qed
qed

theorem fence_roundtrip_iff_witness:
  "braced ''note: {a} ```'' \<and>
   CleanJSONResponse (fence_json ''note: {a} ```'') = CleanJSONResponse ''note: {a} ```'' \<and>
   \<not> HasPrefix (TrimSpace ''not json'') ''```'' \<and> \<not> HasSuffix (TrimSpace ''not json'') ''```'' \<and>
   CleanJSONResponse (fence_json ''not json'') = CleanJSONResponse ''not json''"
proof -
  have b: "braced ''note: {a} ```''" by (simp add: braced_def firstPos_def lastPos_def)
  have t: "TrimSpace ''not json'' = ''not json''" by code_simp
  have u: "\<not> HasPrefix (TrimSpace ''not json'') ''```'' \<and> \<not> HasSuffix (TrimSpace ''not json'') ''```''"
    by (simp add: t HasPrefix_def HasSuffix_def suffix_def)
  show ?thesis
    using b u fence_roundtrip_iff [of "''note: {a} ```''"] fence_roundtrip_iff [of "''not json''"]
    by simp
qed

text \<open>The claim as stated fails at the reply \<open>```\<close>.\<close>

theorem fence_roundtrip_counterexample:
  "CleanJSONResponse (fence_json ''```'') \<noteq> CleanJSONResponse ''```''"
proof -
  have l: "CleanJSONResponse (fence_json ''```'') = ''```''" by code_simp
  have r: "CleanJSONResponse ''```'' = []" by code_simp
  show ?thesis by (simp add: l r)
qed

text \<open>
  C9. \<open>BuildOCRPrompt\<close> is a function of the five flags alone. For every configuration
  its output contains \<open>{\<close> and \<open>}\<close> and every field name of the fixed shape; with
  structured extraction enabled it contains the field names of a table, and with bounding
  boxes enabled the field names of a bounding box.
\<close>

theorem prompt_anchors_and_fields:
  "(let p = BuildOCRPrompt cfg
    in CHR ''{'' \<in> set p \<and> CHR ''}'' \<in> set p \<and>
       names_in p schema_fields \<and>
       (pt_WithStructuredExtraction cfg \<longrightarrow> names_in p table_fields) \<and>
       (pt_WithBoundingBoxes cfg \<longrightarrow> names_in p box_fields))"
proof -
  let ?p = "BuildOCRPrompt cfg"
  have braces: "CHR ''{'' \<in> set ?p" "CHR ''}'' \<in> set ?p"
    using head_braces by (simp_all add: BuildOCRPrompt_def)
  have 1: "names_in ?p [''metadata'', ''language'']"
    unfolding BuildOCRPrompt_parts
    by (rule names_in_concat[of prompt_head]) (simp_all add: prompt_parts_def names_in_def head_names)
  have 2: "names_in ?p [''document_type'', ''confidence_score'', ''text'', ''raw'', ''lines'']"
    unfolding BuildOCRPrompt_parts
    by (rule names_in_concat[of prompt_schema]) (simp_all add: prompt_parts_def names_in_def schema_names)
  have 3: "names_in ?p [''bounding_box'']"
    unfolding BuildOCRPrompt_parts
    by (rule names_in_concat[where seg = "if pt_WithBoundingBoxes cfg then prompt_bbox_on else prompt_bbox_off"])
      (simp_all add: prompt_parts_def names_in_def bbox_names)
  have 4: "names_in ?p [''confidence'']"
    unfolding BuildOCRPrompt_parts
    by (rule names_in_concat[where seg = "if pt_WithConfidenceScores cfg then prompt_confidence_on else prompt_confidence_off"])
      (simp_all add: prompt_parts_def names_in_def confidence_names)
  have 5: "names_in ?p [''structured_data'', ''key_value_pairs'', ''tables'']"
    unfolding BuildOCRPrompt_parts
    by (rule names_in_concat[where seg = "if pt_WithStructuredExtraction cfg then prompt_structured_on else prompt_structured_off"])
      (simp_all add: prompt_parts_def names_in_def structured_names)
  have 6: "names_in ?p [''summary'']"
    unfolding BuildOCRPrompt_parts
    by (rule names_in_concat[where seg = "if pt_WithSummary cfg then prompt_summary_on else prompt_summary_off"])
      (simp_all add: prompt_parts_def names_in_def summary_names)
  have split: "schema_fields =
      [''metadata'', ''language''] @
      [''document_type'', ''confidence_score'', ''text'', ''raw'', ''lines''] @
      [''bounding_box''] @ [''confidence''] @
      [''structured_data'', ''key_value_pairs'', ''tables''] @ [''summary'']"
    by (simp add: schema_fields_def)
  have fields: "names_in ?p schema_fields"
    unfolding split names_in_append using 1 2 3 4 5 6 by blast
  have tables: "names_in ?p table_fields" if "pt_WithStructuredExtraction cfg"
    unfolding BuildOCRPrompt_parts table_fields_def
    by (rule names_in_concat[of prompt_structured_on]) (simp_all add: prompt_parts_def names_in_def table_names that)
  have boxes: "names_in ?p box_fields" if "pt_WithBoundingBoxes cfg"
    unfolding BuildOCRPrompt_parts box_fields_def
    by (rule names_in_concat[of prompt_bbox_on]) (simp_all add: prompt_parts_def names_in_def box_names that)
  show ?thesis unfolding Let_def using braces fields tables boxes by blast
qed

theorem prompt_anchors_and_fields_witness:
  "pt_WithStructuredExtraction all_on \<and> pt_WithBoundingBoxes all_on \<and>
   names_in (BuildOCRPrompt all_on) table_fields \<and>
   names_in (BuildOCRPrompt all_on) box_fields"
proof -
  have h: "pt_WithStructuredExtraction all_on" "pt_WithBoundingBoxes all_on"
    by (simp_all add: all_on_def)
  show ?thesis using h prompt_anchors_and_fields [of all_on] by (simp add: Let_def)
qed

text \<open>
  C10. The clean step is a total function: its trimming loops terminate. Writing \<open>s\<close>
  for the reply after trimming and fence stripping: when \<open>s\<close> has no \<open>{\<close>, or no \<open>}\<close>,
  or its last \<open>}\<close> is not strictly after its first \<open>{\<close>, the result is \<open>s\<close> unchanged; the
  substring from the first \<open>{\<close> to the last \<open>}\<close> is taken exactly when a \<open>{\<close> strictly
  precedes a \<open>}\<close>, and then the bounds of the slice lie inside \<open>s\<close>, so the slice
  expression cannot fail.
\<close>

theorem clean_total_cases:
  "(let s = stripFences raw; i = firstPos CHR ''{'' s; j = lastPos CHR ''}'' s in
     (CHR ''{'' \<notin> set s \<or> CHR ''}'' \<notin> set s \<or> j \<le> i \<longrightarrow> CleanJSONResponse raw = s) \<and>
     (CHR ''{'' \<in> set s \<and> CHR ''}'' \<in> set s \<and> i < j \<longrightarrow>
        j < length s \<and> CleanJSONResponse raw = take (j + 1 - i) (drop i s)))"
  by (simp add: CleanJSONResponse_def extractObject_cases Let_def lastPos_lt)

theorem clean_total_cases_witness:
  "CHR ''{'' \<notin> set (stripFences ''not json'') \<and>
   CleanJSONResponse ''not json'' = ''not json'' \<and>
   CHR ''{'' \<in> set (stripFences ''ok {a} done'') \<and>
   CHR ''}'' \<in> set (stripFences ''ok {a} done'') \<and>
   firstPos CHR ''{'' (stripFences ''ok {a} done'') < lastPos CHR ''}'' (stripFences ''ok {a} done'') \<and>
   CleanJSONResponse ''ok {a} done'' = ''{a}''"
proof -
  have s1: "stripFences ''not json'' = ''not json''" by code_simp
  have s2: "stripFences ''ok {a} done'' = ''ok {a} done''" by code_simp
  have h1: "CHR ''{'' \<notin> set (stripFences ''not json'')" by (simp add: s1)
  have h2: "CHR ''{'' \<in> set (stripFences ''ok {a} done'') \<and>
            CHR ''}'' \<in> set (stripFences ''ok {a} done'') \<and>
            firstPos CHR ''{'' (stripFences ''ok {a} done'')
              < lastPos CHR ''}'' (stripFences ''ok {a} done'')"
    by (simp add: s2 firstPos_def lastPos_def)
  have c1: "CleanJSONResponse ''not json'' = ''not json''"
    using clean_total_cases [of "''not json''"] h1 by (simp add: Let_def s1)
  have c2: "CleanJSONResponse ''ok {a} done'' = ''{a}''"
    using clean_total_cases [of "''ok {a} done''"] h2
    by (simp add: Let_def s2 firstPos_def lastPos_def)
  show ?thesis using h1 h2 c1 c2 by simp
qed

end
